theory Spec2Isabelle
  imports Complex_Main "HOL-Library.AList"
begin

section \<open>Dense reconstruction pipeline of opensfm/dense.py\<close>

text \<open>
  Python exceptions are values of \<open>error\<close>; a function that may raise returns
  \<open>error + 'a\<close> with \<open>Inl\<close> for the exception. Python dictionaries keep insertion order,
  which the neighbour ranking depends on, so a dictionary is an association list that is
  read with \<open>map_of\<close> and written with \<open>AList.update\<close> (an existing key keeps its
  position, a new key goes to the end, as in Python). numpy's floating-point numbers are
  idealised as \<open>real\<close>.
\<close>

datatype error =
  KeyError | ValueError | AssertionError | IOError | ZeroDivisionError | NativeError | Cv2Error

datatype level = INFO | WARNING | ERROR

type_synonym shot_id = string
type_synonym track_id = string
type_synonym ('k, 'v) dict = "('k \<times> 'v) list"
type_synonym vec3 = "real \<times> real \<times> real"
type_synonym log_record = "level \<times> string"

subsection \<open>Track graph and common-track table\<close>

text \<open>
  The tracks manager is the track graph: for each shot id the ids of the tracks the shot
  observes. \<open>get_shot_ids\<close> lists its keys, \<open>get_shot_observations\<close> reads one row.
\<close>

type_synonym tracks_manager = "(shot_id, track_id list) dict"

definition get_shot_ids :: "tracks_manager \<Rightarrow> shot_id list" where
  "get_shot_ids tm = map fst tm"

definition get_shot_observations :: "tracks_manager \<Rightarrow> shot_id \<Rightarrow> error + track_id list" where
  "get_shot_observations tm sid =
     (case map_of tm sid of None \<Rightarrow> Inl KeyError | Some ts \<Rightarrow> Inr ts)"

type_synonym pair_tracks = "((shot_id \<times> shot_id), track_id list) dict"
type_synonym table = "(shot_id, (shot_id, track_id list) dict) dict"

text \<open>\<open>res[a][b] = v\<close>: the outer lookup raises KeyError when \<open>a\<close> is no key of \<open>res\<close>.\<close>

definition set_inner :: "table \<Rightarrow> shot_id \<Rightarrow> shot_id \<Rightarrow> track_id list \<Rightarrow> error + table" where
  "set_inner res a b v =
     (case map_of res a of
        None \<Rightarrow> Inl KeyError
      | Some inner \<Rightarrow> Inr (AList.update a (AList.update b v inner) res))"

text \<open>\<open>res[a][b]\<close> as a read, \<open>None\<close> where Python raises KeyError.\<close>

definition table_get :: "table \<Rightarrow> shot_id \<Rightarrow> shot_id \<Rightarrow> track_id list option" where
  "table_get res a b = (case map_of res a of None \<Rightarrow> None | Some inner \<Rightarrow> map_of inner b)"

text \<open>The loop \<open>for (im1, im2), v in common_tracks_per_pair.items()\<close>.\<close>

fun common_tracks_loop :: "pair_tracks \<Rightarrow> table \<Rightarrow> error + table" where
  "common_tracks_loop [] res = Inr res"
| "common_tracks_loop (((im1, im2), v) # rest) res =
     (case set_inner res im1 im2 v of
        Inl e \<Rightarrow> Inl e
      | Inr res1 \<Rightarrow>
          (case set_inner res1 im2 im1 v of
             Inl e \<Rightarrow> Inl e
           | Inr res2 \<Rightarrow> common_tracks_loop rest res2))"

text \<open>The dict comprehension \<open>{image: {} for image in tracks_manager.get_shot_ids()}\<close>.\<close>

definition empty_rows :: "shot_id list \<Rightarrow> table" where
  "empty_rows ids = foldl (\<lambda>d image. AList.update image [] d) [] ids"

text \<open>
  \<open>tracking.all_common_tracks_without_features\<close> is not part of dense.py; it is the
  parameter \<open>all_common_tracks_without_features\<close>, any function from the track graph to a
  dictionary keyed by shot pairs.
\<close>

definition common_tracks_double_dict ::
  "(tracks_manager \<Rightarrow> pair_tracks) \<Rightarrow> tracks_manager \<Rightarrow> error + table" where
  "common_tracks_double_dict all_common_tracks_without_features tm =
     (let common_tracks_per_pair = all_common_tracks_without_features tm;
          res = empty_rows (get_shot_ids tm)
      in common_tracks_loop common_tracks_per_pair res)"

subsection \<open>Shots and the reconstruction\<close>

text \<open>
  Modelled from the spec: \<open>pymap.Shot\<close>, its camera and its pose are not part of dense.py.
  The spec gives a shot an id, a camera (projection model and pixel dimensions) and a
  pose (rotation, translation, derived camera centre). The pose maps a world point \<open>p\<close>
  to \<open>R p + t\<close> and its origin is the point mapped to zero, \<open>- R\<^sup>T t\<close>. The rotation
  is given by its three rows.
\<close>

record pose =
  rotation :: "vec3 \<times> vec3 \<times> vec3"
  translation :: vec3

definition dot3 :: "vec3 \<Rightarrow> vec3 \<Rightarrow> real" where
  "dot3 u v = (case u of (u0, u1, u2) \<Rightarrow> case v of (v0, v1, v2) \<Rightarrow> u0 * v0 + u1 * v1 + u2 * v2)"

definition transform :: "pose \<Rightarrow> vec3 \<Rightarrow> vec3" where
  "transform ps p =
     (case rotation ps of (r0, r1, r2) \<Rightarrow>
      case translation ps of (t0, t1, t2) \<Rightarrow>
        (dot3 r0 p + t0, dot3 r1 p + t1, dot3 r2 p + t2))"

definition get_origin :: "pose \<Rightarrow> vec3" where
  "get_origin ps =
     (case rotation ps of ((r00, r01, r02), (r10, r11, r12), (r20, r21, r22)) \<Rightarrow>
      case translation ps of (t0, t1, t2) \<Rightarrow>
        (- (r00 * t0 + r10 * t1 + r20 * t2),
         - (r01 * t0 + r11 * t1 + r21 * t2),
         - (r02 * t0 + r12 * t1 + r22 * t2)))"

record camera =
  projection_type :: string
  cam_width :: int
  cam_height :: int

record shot =
  shot_id :: shot_id
  shot_camera :: camera
  shot_pose :: pose

text \<open>
  The reconstruction: \<open>shots\<close> is a dictionary from shot id to shot (its iteration order
  is the order of the pipeline), \<open>points\<close> gives the coordinates of the reconstructed
  point of a track.
\<close>

record reconstruction =
  shots :: "(shot_id, shot) dict"
  points :: "track_id \<rightharpoonup> vec3"

subsection \<open>Neighbour selection\<close>

text \<open>
  \<open>angle_between_points\<close>. When \<open>la * lb\<close> is zero numpy divides zero by zero and the
  result is nan, for which every comparison is false: that is \<open>None\<close> here.
\<close>

definition angle_between_points :: "vec3 \<Rightarrow> vec3 \<Rightarrow> vec3 \<Rightarrow> real option" where
  "angle_between_points origin p1 p2 =
     (case origin of (o0, o1, o2) \<Rightarrow>
      case p1 of (p10, p11, p12) \<Rightarrow>
      case p2 of (p20, p21, p22) \<Rightarrow>
        (let a0 = p10 - o0; a1 = p11 - o1; a2 = p12 - o2;
             b0 = p20 - o0; b1 = p21 - o1; b2 = p22 - o2;
             dot = a0 * b0 + a1 * b1 + a2 * b2;
             la = a0 * a0 + a1 * a1 + a2 * a2;
             lb = b0 * b0 + b1 * b1 + b2 * b2
         in if la * lb = 0 then None else Some (arccos (dot / sqrt (la * lb)))))"

definition theta_min :: real where
  "theta_min = pi / 60"

definition theta_max :: real where
  "theta_max = pi / 6"

text \<open>The inner loop \<open>for track in tracks\<close>, with the running \<open>score\<close>.\<close>

fun score_loop :: "reconstruction \<Rightarrow> vec3 \<Rightarrow> vec3 \<Rightarrow> track_id list \<Rightarrow> int \<Rightarrow> int" where
  "score_loop rc C1 C2 [] score = score"
| "score_loop rc C1 C2 (track # tracks) score =
     score_loop rc C1 C2 tracks
       (case points rc track of
          None \<Rightarrow> score
        | Some p \<Rightarrow>
            (case angle_between_points p C1 C2 of
               None \<Rightarrow> score
             | Some theta \<Rightarrow>
                 if theta > theta_min \<and> theta < theta_max then score + 1 else score))"

text \<open>The outer loop over the row of the table, with the list \<open>ns\<close> it appends to.\<close>

fun candidates_loop ::
  "reconstruction \<Rightarrow> vec3 \<Rightarrow> (shot_id, track_id list) dict \<Rightarrow> (shot \<times> int) list \<Rightarrow>
   (shot \<times> int) list" where
  "candidates_loop rc C1 [] ns = ns"
| "candidates_loop rc C1 ((other_id, tracks) # rest) ns =
     (case map_of (shots rc) other_id of
        None \<Rightarrow> candidates_loop rc C1 rest ns
      | Some other \<Rightarrow>
          (let C2 = get_origin (shot_pose other);
               score = score_loop rc C1 C2 tracks 0
           in candidates_loop rc C1 rest (if score > 20 then ns @ [(other, score)] else ns)))"

text \<open>\<open>common_tracks.get(shot.id, {})\<close>.\<close>

definition row_of :: "table \<Rightarrow> shot \<Rightarrow> (shot_id, track_id list) dict" where
  "row_of common_tracks sh =
     (case map_of common_tracks (shot_id sh) of None \<Rightarrow> [] | Some row \<Rightarrow> row)"

text \<open>
  \<open>ns.sort(key=lambda ns: ns[1], reverse=True)\<close>: Python's sort is stable also when
  reversed, so equal scores keep their order; that is the stable ascending sort by the
  negated score.
\<close>

definition sort_by_score :: "(shot \<times> int) list \<Rightarrow> (shot \<times> int) list" where
  "sort_by_score ns = sort_key (\<lambda>n. - snd n) ns"

text \<open>The slice \<open>xs[:n]\<close>; a negative \<open>n\<close> counts from the end.\<close>

definition slice_upto :: "'a list \<Rightarrow> int \<Rightarrow> 'a list" where
  "slice_upto xs n = (if n < 0 then take (nat (int (length xs) + n)) xs else take (nat n) xs)"

text \<open>The slice \<open>xs[1:]\<close>.\<close>

definition slice_from_1 :: "'a list \<Rightarrow> 'a list" where
  "slice_from_1 xs = drop 1 xs"

definition ranked_candidates :: "shot \<Rightarrow> table \<Rightarrow> reconstruction \<Rightarrow> (shot \<times> int) list" where
  "ranked_candidates sh common_tracks rc =
     sort_by_score (candidates_loop rc (get_origin (shot_pose sh)) (row_of common_tracks sh) [])"

definition find_neighboring_images ::
  "shot \<Rightarrow> table \<Rightarrow> reconstruction \<Rightarrow> int \<Rightarrow> shot list" where
  "find_neighboring_images sh common_tracks rc num_neighbors =
     [sh] @ map fst (slice_upto (ranked_candidates sh common_tracks rc) num_neighbors)"

text \<open>
  The words of the spec for a "good" track of a candidate: its point is reconstructed and
  the angle at the point between the rays to the two camera centres lies strictly between
  \<open>pi / 60\<close> and \<open>pi / 6\<close>.
\<close>

definition qualifying :: "reconstruction \<Rightarrow> shot \<Rightarrow> shot \<Rightarrow> track_id \<Rightarrow> bool" where
  "qualifying rc sh other track =
     (case points rc track of
        None \<Rightarrow> False
      | Some p \<Rightarrow>
          (case angle_between_points p (get_origin (shot_pose sh)) (get_origin (shot_pose other)) of
             None \<Rightarrow> False
           | Some theta \<Rightarrow> pi / 60 < theta \<and> theta < pi / 6))"

subsection \<open>Configuration\<close>

text \<open>The configuration keys that dense.py reads, with the values they hold.\<close>

record config =
  processes :: int
  depthmap_num_neighbors :: int
  depthmap_method :: string
  depthmap_min_depth :: real
  depthmap_max_depth :: real
  depthmap_patchmatch_iterations :: int
  depthmap_patch_size :: int
  depthmap_min_patch_sd :: real
  depthmap_min_correlation_score :: real
  depthmap_num_matching_views :: int
  depthmap_resolution :: int
  depthmap_same_depth_threshold :: real
  depthmap_min_consistent_views :: int
  depthmap_save_debug_files :: bool
  interactive :: bool

subsection \<open>Depth range\<close>

text \<open>
  \<open>np.percentile\<close> with numpy's default linear interpolation: on the sorted values,
  the value at the fractional index \<open>q / 100 * (n - 1)\<close>.
\<close>

definition linear_percentile :: "real list \<Rightarrow> real \<Rightarrow> real" where
  "linear_percentile a q =
     (let s = sort a;
          n = length s;
          virtual_index = q / 100 * (real n - 1);
          previous = nat \<lfloor>virtual_index\<rfloor>;
          next = min (previous + 1) (n - 1);
          gamma = virtual_index - real previous
      in s ! previous + gamma * (s ! next - s ! previous))"

text \<open>
  The call itself. A percentile outside \<open>[0, 100]\<close> raises ValueError. On an empty
  sequence numpy's releases differ (nan with a warning, or an IndexError); what the call
  gives there is the parameter \<open>empty_percentile\<close>.
\<close>

definition percentile :: "error + real \<Rightarrow> real list \<Rightarrow> real \<Rightarrow> error + real" where
  "percentile empty_percentile a q =
     (if q < 0 \<or> 100 < q then Inl ValueError
      else if a = [] then empty_percentile
      else Inr (linear_percentile a q))"

text \<open>The third coordinate, \<open>v[2]\<close>.\<close>

definition third :: "vec3 \<Rightarrow> real" where
  "third v = (case v of (x, y, z) \<Rightarrow> z)"

text \<open>The loop of \<open>compute_depth_range\<close>, appending to \<open>depths\<close>.\<close>

fun depths_loop :: "reconstruction \<Rightarrow> shot \<Rightarrow> track_id list \<Rightarrow> real list \<Rightarrow> real list" where
  "depths_loop rc sh [] depths = depths"
| "depths_loop rc sh (track # rest) depths =
     depths_loop rc sh rest
       (case points rc track of
          None \<Rightarrow> depths
        | Some p \<Rightarrow> depths @ [third (transform (shot_pose sh) p)])"

text \<open>
  \<open>config_min_depth or min_depth\<close> is the configured value unless that is zero.
\<close>

definition compute_depth_range ::
  "error + real \<Rightarrow> tracks_manager \<Rightarrow> reconstruction \<Rightarrow> shot \<Rightarrow> config \<Rightarrow> error + real \<times> real" where
  "compute_depth_range empty_percentile tm rc sh cfg =
     (case get_shot_observations tm (shot_id sh) of
        Inl e \<Rightarrow> Inl e
      | Inr tracks \<Rightarrow>
          (let depths = depths_loop rc sh tracks [] in
           case percentile empty_percentile depths 10 of
             Inl e \<Rightarrow> Inl e
           | Inr p10 \<Rightarrow>
               (case percentile empty_percentile depths 90 of
                  Inl e \<Rightarrow> Inl e
                | Inr p90 \<Rightarrow>
                    (let min_depth = p10 * 0.9;
                         max_depth = p90 * 1.1;
                         config_min_depth = depthmap_min_depth cfg;
                         config_max_depth = depthmap_max_depth cfg
                     in Inr (if config_min_depth \<noteq> 0 then config_min_depth else min_depth,
                             if config_max_depth \<noteq> 0 then config_max_depth else max_depth)))))"

text \<open>
  The words of the spec for the depths of a shot: the third coordinate of the
  pose-transformed point of every observed track that has a reconstructed point.
\<close>

definition visible_depths :: "reconstruction \<Rightarrow> shot \<Rightarrow> track_id list \<Rightarrow> real list" where
  "visible_depths rc sh tracks =
     map (\<lambda>t. third (transform (shot_pose sh) (the (points rc t))))
       (filter (\<lambda>t. points rc t \<noteq> None) tracks)"

subsection \<open>Point-cloud merger\<close>

type_synonym cloud = "vec3 list \<times> vec3 list \<times> (nat \<times> nat \<times> nat) list \<times> nat list"

text \<open>\<open>np.concatenate\<close> along the first axis; it raises ValueError on an empty sequence.\<close>

definition np_concatenate :: "'a list list \<Rightarrow> error + 'a list" where
  "np_concatenate arrays = (if arrays = [] then Inl ValueError else Inr (concat arrays))"

text \<open>The loop of \<open>aggregate_depthmaps\<close>, appending to the four lists.\<close>

fun aggregate_loop ::
  "shot_id list \<Rightarrow> (shot_id \<Rightarrow> error + cloud) \<Rightarrow>
   vec3 list list \<times> vec3 list list \<times> (nat \<times> nat \<times> nat) list list \<times> nat list list \<Rightarrow>
   error + vec3 list list \<times> vec3 list list \<times> (nat \<times> nat \<times> nat) list list \<times> nat list list" where
  "aggregate_loop [] depthmap_provider acc = Inr acc"
| "aggregate_loop (sid # rest) depthmap_provider (points_l, normals_l, colors_l, labels_l) =
     (case depthmap_provider sid of
        Inl e \<Rightarrow> Inl e
      | Inr (p, n, c, l) \<Rightarrow>
          aggregate_loop rest depthmap_provider
            (points_l @ [p], normals_l @ [n], colors_l @ [c], labels_l @ [l]))"

definition aggregate_depthmaps ::
  "shot_id list \<Rightarrow> (shot_id \<Rightarrow> error + cloud) \<Rightarrow> error + cloud" where
  "aggregate_depthmaps shot_ids depthmap_provider =
     (case aggregate_loop shot_ids depthmap_provider ([], [], [], []) of
        Inl e \<Rightarrow> Inl e
      | Inr (points_l, normals_l, colors_l, labels_l) \<Rightarrow>
          (case np_concatenate points_l of
             Inl e \<Rightarrow> Inl e
           | Inr ps \<Rightarrow>
               (case np_concatenate normals_l of
                  Inl e \<Rightarrow> Inl e
                | Inr ns \<Rightarrow>
                    (case np_concatenate colors_l of
                       Inl e \<Rightarrow> Inl e
                     | Inr cs \<Rightarrow>
                         (case np_concatenate labels_l of
                            Inl e \<Rightarrow> Inl e
                          | Inr ls \<Rightarrow> Inr (ps, ns, cs, ls))))))"

text \<open>The function returns what it logged together with its result.\<close>

definition merge_depthmaps_from_provider ::
  "shot_id list \<Rightarrow> (shot_id \<Rightarrow> error + cloud) \<Rightarrow> log_record list \<times> (error + cloud)" where
  "merge_depthmaps_from_provider shot_ids depthmap_provider =
     (if shot_ids = []
      then ([(INFO, ''Merging depthmaps''),
             (WARNING, ''Depthmaps contain no points.  Try using more images.'')],
            Inr ([], [], [], []))
      else ([(INFO, ''Merging depthmaps'')], aggregate_depthmaps shot_ids depthmap_provider))"

subsection \<open>Dataset, artifacts and the external capabilities\<close>

text \<open>
  The values of a floating-point map: a finite number, an infinity or nan. The sign of a
  zero is not kept. A comparison with nan is false. A truth value counts 1 when true and
  0 when false, and the product with 0 is 0 for a finite number and nan for an infinity
  or nan.
\<close>

datatype npfloat = Finite real | PosInf | NegInf | NaN

definition np_less :: "npfloat \<Rightarrow> real \<Rightarrow> bool" where
  "np_less v t =
     (case v of Finite x \<Rightarrow> x < t | PosInf \<Rightarrow> False | NegInf \<Rightarrow> True | NaN \<Rightarrow> False)"

definition np_greater :: "npfloat \<Rightarrow> real \<Rightarrow> bool" where
  "np_greater v t =
     (case v of Finite x \<Rightarrow> x > t | PosInf \<Rightarrow> True | NegInf \<Rightarrow> False | NaN \<Rightarrow> False)"

definition times_bool :: "npfloat \<Rightarrow> bool \<Rightarrow> npfloat" where
  "times_bool v b =
     (if b then v
      else case v of Finite x \<Rightarrow> Finite 0 | PosInf \<Rightarrow> NaN | NegInf \<Rightarrow> NaN | NaN \<Rightarrow> NaN)"

text \<open>
  Arrays with two axes are lists of rows. An image keeps its pixel values as numbers;
  what they encode is the business of the loaders and of cv2.
\<close>

type_synonym image = "nat list list"
type_synonym depth_map = "npfloat list list"
type_synonym plane_map = "vec3 list list"
type_synonym index_map = "int list list"

definition shape0 :: "'a list list \<Rightarrow> int" where
  "shape0 a = int (length a)"

definition shape1 :: "'a list list \<Rightarrow> int" where
  "shape1 a = (case a of [] \<Rightarrow> 0 | row # rows \<Rightarrow> int (length row))"

record raw_depthmap =
  raw_depth :: depth_map
  raw_plane :: plane_map
  raw_score :: depth_map
  raw_nghbr :: index_map
  raw_nghbrs :: "shot_id list"

record clean_depthmap =
  clean_depth :: depth_map
  clean_plane :: plane_map
  clean_score :: depth_map

text \<open>
  The undistorted dataset: its configuration and what it stores per shot. The existence
  of an artifact is the presence of its key.
\<close>

record dataset =
  config :: config
  raw_depthmaps :: "shot_id \<rightharpoonup> raw_depthmap"
  clean_depthmaps :: "shot_id \<rightharpoonup> clean_depthmap"
  pruned_depthmaps :: "shot_id \<rightharpoonup> cloud"
  undistorted_images :: "shot_id \<rightharpoonup> image"
  undistorted_combined_masks :: "shot_id \<rightharpoonup> image"
  undistorted_segmentations :: "shot_id \<rightharpoonup> image"
  depthmap_files :: "shot_id \<times> string \<rightharpoonup> string"
  point_clouds :: "string \<rightharpoonup> cloud"

definition raw_depthmap_exists :: "dataset \<Rightarrow> shot_id \<Rightarrow> bool" where
  "raw_depthmap_exists d sid = (raw_depthmaps d sid \<noteq> None)"

definition clean_depthmap_exists :: "dataset \<Rightarrow> shot_id \<Rightarrow> bool" where
  "clean_depthmap_exists d sid = (clean_depthmaps d sid \<noteq> None)"

definition pruned_depthmap_exists :: "dataset \<Rightarrow> shot_id \<Rightarrow> bool" where
  "pruned_depthmap_exists d sid = (pruned_depthmaps d sid \<noteq> None)"

definition undistorted_segmentation_exists :: "dataset \<Rightarrow> shot_id \<Rightarrow> bool" where
  "undistorted_segmentation_exists d sid = (undistorted_segmentations d sid \<noteq> None)"

definition load_raw_depthmap :: "dataset \<Rightarrow> shot_id \<Rightarrow> error + raw_depthmap" where
  "load_raw_depthmap d sid = (case raw_depthmaps d sid of None \<Rightarrow> Inl IOError | Some r \<Rightarrow> Inr r)"

definition load_clean_depthmap :: "dataset \<Rightarrow> shot_id \<Rightarrow> error + clean_depthmap" where
  "load_clean_depthmap d sid =
     (case clean_depthmaps d sid of None \<Rightarrow> Inl IOError | Some c \<Rightarrow> Inr c)"

definition load_pruned_depthmap :: "dataset \<Rightarrow> shot_id \<Rightarrow> error + cloud" where
  "load_pruned_depthmap d sid =
     (case pruned_depthmaps d sid of None \<Rightarrow> Inl IOError | Some c \<Rightarrow> Inr c)"

definition load_undistorted_image :: "dataset \<Rightarrow> shot_id \<Rightarrow> error + image" where
  "load_undistorted_image d sid =
     (case undistorted_images d sid of None \<Rightarrow> Inl IOError | Some i \<Rightarrow> Inr i)"

definition load_undistorted_segmentation :: "dataset \<Rightarrow> shot_id \<Rightarrow> error + image" where
  "load_undistorted_segmentation d sid =
     (case undistorted_segmentations d sid of None \<Rightarrow> Inl IOError | Some i \<Rightarrow> Inr i)"

definition save_raw_depthmap ::
  "dataset \<Rightarrow> shot_id \<Rightarrow> depth_map \<Rightarrow> plane_map \<Rightarrow> depth_map \<Rightarrow> index_map \<Rightarrow> shot_id list \<Rightarrow>
   dataset" where
  "save_raw_depthmap d sid depth plane score nghbr nghbrs =
     d\<lparr>raw_depthmaps := (raw_depthmaps d)(sid \<mapsto>
        \<lparr>raw_depth = depth, raw_plane = plane, raw_score = score, raw_nghbr = nghbr,
         raw_nghbrs = nghbrs\<rparr>)\<rparr>"

definition save_clean_depthmap ::
  "dataset \<Rightarrow> shot_id \<Rightarrow> depth_map \<Rightarrow> plane_map \<Rightarrow> depth_map \<Rightarrow> dataset" where
  "save_clean_depthmap d sid depth plane score =
     d\<lparr>clean_depthmaps := (clean_depthmaps d)(sid \<mapsto>
        \<lparr>clean_depth = depth, clean_plane = plane, clean_score = score\<rparr>)\<rparr>"

definition save_pruned_depthmap :: "dataset \<Rightarrow> shot_id \<Rightarrow> cloud \<Rightarrow> dataset" where
  "save_pruned_depthmap d sid c = d\<lparr>pruned_depthmaps := (pruned_depthmaps d)(sid \<mapsto> c)\<rparr>"

definition save_point_cloud :: "dataset \<Rightarrow> cloud \<Rightarrow> string \<Rightarrow> dataset" where
  "save_point_cloud d c filename = d\<lparr>point_clouds := (point_clouds d)(filename \<mapsto> c)\<rparr>"

text \<open>Writing the text \<open>ply\<close> to \<open>data.depthmap_file(shot.id, suffix)\<close>.\<close>

definition write_depthmap_file :: "dataset \<Rightarrow> shot_id \<Rightarrow> string \<Rightarrow> string \<Rightarrow> dataset" where
  "write_depthmap_file d sid suffix ply =
     d\<lparr>depthmap_files := (depthmap_files d)((sid, suffix) \<mapsto> ply)\<rparr>"

text \<open>
  The objects of \<open>pydense\<close> as the values they are configured to. A view records the
  shot and the processing resolution, from which the camera matrix
  \<open>get_K_in_pixel_coordinates(width, height)\<close>, the rotation and the translation
  are taken, and the per-pixel payload of the stage.
\<close>

record estimator_view =
  ev_shot :: shot
  ev_width :: int
  ev_height :: int
  ev_image :: image
  ev_mask :: image

record estimator =
  de_min_depth :: real
  de_max_depth :: real
  de_num_depth_planes :: int
  de_patchmatch_iterations :: int
  de_patch_size :: int
  de_min_patch_sd :: real
  de_views :: "estimator_view list"

record cleaner_view =
  cv_shot :: shot
  cv_width :: int
  cv_height :: int
  cv_depth :: depth_map

record cleaner =
  dc_same_depth_threshold :: real
  dc_min_consistent_views :: int
  dc_views :: "cleaner_view list"

record pruner_view =
  pv_shot :: shot
  pv_width :: int
  pv_height :: int
  pv_depth :: depth_map
  pv_plane :: plane_map
  pv_image :: image
  pv_labels :: image

record pruner =
  dp_same_depth_threshold :: real
  dp_views :: "pruner_view list"

datatype interpolation = INTER_AREA | INTER_NEAREST

text \<open>
  What dense.py calls and does not define: the three computations of the estimator, the
  cleaner's and the pruner's computation, cv2's colour conversion and resize, and the
  text of the PLY export of \<open>depthmap_to_ply\<close>; each may raise. Two more are numpy's.
  When it compares a map with a scalar threshold, numpy converts the threshold to the
  precision of the comparison (for the estimator's float32 maps and a Python float: the
  threshold rounded to float32); the conversion is \<open>to_map_precision\<close>. For a depth map
  and a score map of different shapes numpy broadcasts the product when the shapes are
  compatible and raises ValueError otherwise; what it gives is \<open>broadcast_mask\<close>. All
  are parameters, any functions of these types.
\<close>

record externals =
  compute_brute_force :: "estimator \<Rightarrow> error + depth_map \<times> plane_map \<times> depth_map \<times> index_map"
  compute_patch_match :: "estimator \<Rightarrow> error + depth_map \<times> plane_map \<times> depth_map \<times> index_map"
  compute_patch_match_sample ::
    "estimator \<Rightarrow> error + depth_map \<times> plane_map \<times> depth_map \<times> index_map"
  clean :: "cleaner \<Rightarrow> error + depth_map"
  prune :: "pruner \<Rightarrow> error + cloud"
  cvtColor :: "image \<Rightarrow> error + image"
  resize :: "image \<Rightarrow> int \<Rightarrow> int \<Rightarrow> interpolation \<Rightarrow> error + image"
  depthmap_to_ply :: "shot \<Rightarrow> depth_map \<Rightarrow> image \<Rightarrow> error + string"
  to_map_precision :: "real \<Rightarrow> real"
  broadcast_mask :: "depth_map \<Rightarrow> depth_map \<Rightarrow> real \<Rightarrow> real \<Rightarrow> error + depth_map"

text \<open>
  The state a stage runner works on: the dataset, the log, and the calls made to the
  objects of \<open>pydense\<close> (constructor and methods, by name, in order).
\<close>

record world =
  data :: dataset
  logged :: "log_record list"
  calls :: "string list"

definition logger :: "level \<Rightarrow> string \<Rightarrow> world \<Rightarrow> world" where
  "logger lvl msg w = w\<lparr>logged := logged w @ [(lvl, msg)]\<rparr>"

subsection \<open>Image helpers\<close>

definition scale_image ::
  "externals \<Rightarrow> image \<Rightarrow> int \<Rightarrow> int \<Rightarrow> interpolation \<Rightarrow> error + image" where
  "scale_image ext img width height interp = resize ext img width height interp"

definition scale_down_image ::
  "externals \<Rightarrow> image \<Rightarrow> int \<Rightarrow> int \<Rightarrow> interpolation \<Rightarrow> error + image" where
  "scale_down_image ext img width height interp =
     (let width = min width (shape1 img);
          height = min height (shape0 img)
      in scale_image ext img width height interp)"

text \<open>\<open>np.ones\<close> and \<open>np.zeros\<close> of a given size.\<close>

definition np_full :: "nat \<Rightarrow> int \<Rightarrow> int \<Rightarrow> image" where
  "np_full v height width = replicate (nat height) (replicate (nat width) v)"

definition load_combined_mask :: "dataset \<Rightarrow> shot \<Rightarrow> image" where
  "load_combined_mask d sh =
     (case undistorted_combined_masks d (shot_id sh) of
        None \<Rightarrow> np_full 1 (cam_height (shot_camera sh)) (cam_width (shot_camera sh))
      | Some m \<Rightarrow> m)"

definition load_segmentation_labels :: "dataset \<Rightarrow> shot \<Rightarrow> error + image" where
  "load_segmentation_labels d sh =
     (if undistorted_segmentation_exists d (shot_id sh)
      then load_undistorted_segmentation d (shot_id sh)
      else Inr (np_full 0 (cam_height (shot_camera sh)) (cam_width (shot_camera sh))))"

subsection \<open>Stage runners\<close>

text \<open>
  \<open>add_views_to_depth_estimator\<close>: the loop over \<open>neighbors[: num_neighbors + 1]\<close>. It
  stops at the first exception: the assertion on the projection type, a missing image,
  an exception of cv2, or the division by an image width of zero. It returns the
  exception if any, the estimator and the calls made so far.
\<close>

fun add_views_to_depth_estimator_loop ::
  "externals \<Rightarrow> dataset \<Rightarrow> shot list \<Rightarrow> estimator \<Rightarrow> string list \<Rightarrow>
   error option \<times> estimator \<times> string list" where
  "add_views_to_depth_estimator_loop ext d [] de cs = (None, de, cs)"
| "add_views_to_depth_estimator_loop ext d (sh # rest) de cs =
     (if projection_type (shot_camera sh) \<noteq> ''perspective'' then (Some AssertionError, de, cs)
      else
        case load_undistorted_image d (shot_id sh) of
          Inl e \<Rightarrow> (Some e, de, cs)
        | Inr color_image \<Rightarrow>
            (let m = load_combined_mask d sh in
             case cvtColor ext color_image of
               Inl e \<Rightarrow> (Some e, de, cs)
             | Inr gray_image \<Rightarrow>
                 (let original_height = shape0 gray_image;
                      original_width = shape1 gray_image;
                      width = min original_width (depthmap_resolution (config d))
                  in if original_width = 0 then (Some ZeroDivisionError, de, cs)
                     else
                       (let height = width * original_height div original_width in
                        case scale_down_image ext gray_image width height INTER_AREA of
                          Inl e \<Rightarrow> (Some e, de, cs)
                        | Inr img \<Rightarrow>
                            (case scale_image ext m (shape1 img) (shape0 img) INTER_NEAREST of
                               Inl e \<Rightarrow> (Some e, de, cs)
                             | Inr m \<Rightarrow>
                                 add_views_to_depth_estimator_loop ext d rest
                                   (de\<lparr>de_views := de_views de @
                                       [\<lparr>ev_shot = sh, ev_width = width, ev_height = height,
                                         ev_image = img, ev_mask = m\<rparr>]\<rparr>)
                                   (cs @ [''DepthmapEstimator.add_view'']))))))"

definition add_views_to_depth_estimator ::
  "externals \<Rightarrow> dataset \<Rightarrow> shot list \<Rightarrow> estimator \<Rightarrow> string list \<Rightarrow>
   error option \<times> estimator \<times> string list" where
  "add_views_to_depth_estimator ext d neighbors de cs =
     (let num_neighbors = depthmap_num_matching_views (config d)
      in add_views_to_depth_estimator_loop ext d (slice_upto neighbors (num_neighbors + 1)) de cs)"

text \<open>\<open>add_views_to_depth_cleaner\<close>: neighbours without a raw depthmap are skipped.\<close>

fun add_views_to_depth_cleaner ::
  "dataset \<Rightarrow> shot list \<Rightarrow> cleaner \<Rightarrow> string list \<Rightarrow> cleaner \<times> string list" where
  "add_views_to_depth_cleaner d [] dc cs = (dc, cs)"
| "add_views_to_depth_cleaner d (sh # rest) dc cs =
     (case raw_depthmaps d (shot_id sh) of
        None \<Rightarrow> add_views_to_depth_cleaner d rest dc cs
      | Some raw \<Rightarrow>
          (let depth = raw_depth raw;
               height = shape0 depth;
               width = shape1 depth
           in add_views_to_depth_cleaner d rest
                (dc\<lparr>dc_views := dc_views dc @
                    [\<lparr>cv_shot = sh, cv_width = width, cv_height = height, cv_depth = depth\<rparr>]\<rparr>)
                (cs @ [''DepthmapCleaner.add_view''])))"

text \<open>
  \<open>add_views_to_depth_pruner\<close>: neighbours without a clean depthmap are skipped; a
  missing image or an exception of cv2 stops the loop.
\<close>

fun add_views_to_depth_pruner ::
  "externals \<Rightarrow> dataset \<Rightarrow> shot list \<Rightarrow> pruner \<Rightarrow> string list \<Rightarrow>
   error option \<times> pruner \<times> string list" where
  "add_views_to_depth_pruner ext d [] dp cs = (None, dp, cs)"
| "add_views_to_depth_pruner ext d (sh # rest) dp cs =
     (case clean_depthmaps d (shot_id sh) of
        None \<Rightarrow> add_views_to_depth_pruner ext d rest dp cs
      | Some cl \<Rightarrow>
          (let depth = clean_depth cl;
               plane = clean_plane cl;
               height = shape0 depth;
               width = shape1 depth
           in case load_undistorted_image d (shot_id sh) of
                Inl e \<Rightarrow> (Some e, dp, cs)
              | Inr color_image \<Rightarrow>
                  (case load_segmentation_labels d sh of
                     Inl e \<Rightarrow> (Some e, dp, cs)
                   | Inr labels \<Rightarrow>
                       (case scale_down_image ext color_image width height INTER_AREA of
                          Inl e \<Rightarrow> (Some e, dp, cs)
                        | Inr img \<Rightarrow>
                            (case scale_image ext labels (shape1 img) (shape0 img)
                                    INTER_NEAREST of
                               Inl e \<Rightarrow> (Some e, dp, cs)
                             | Inr labels \<Rightarrow>
                                 add_views_to_depth_pruner ext d rest
                                   (dp\<lparr>dp_views := dp_views dp @
                                       [\<lparr>pv_shot = sh, pv_width = width, pv_height = height,
                                         pv_depth = depth, pv_plane = plane, pv_image = img,
                                         pv_labels = labels\<rparr>]\<rparr>)
                                   (cs @ [''DepthmapPruner.add_view'']))))))"

text \<open>
  The choice of the estimator's computation by \<open>depthmap_method\<close>; \<open>None\<close> is the
  unknown method, for which \<open>compute_depthmap\<close> raises ValueError.
\<close>

definition compute_by_method ::
  "externals \<Rightarrow> string \<Rightarrow> estimator \<Rightarrow>
   (error + depth_map \<times> plane_map \<times> depth_map \<times> index_map) option" where
  "compute_by_method ext method de =
     (if method = ''BRUTE_FORCE'' then Some (compute_brute_force ext de)
      else if method = ''PATCH_MATCH'' then Some (compute_patch_match ext de)
      else if method = ''PATCH_MATCH_SAMPLE'' then Some (compute_patch_match_sample ext de)
      else None)"

text \<open>
  The post-processing \<open>depth * (depth < max_depth) * (score > min_score)\<close>, element by
  element, for maps of one shape: both comparisons are made with the threshold as numpy
  converts it, and the two truth values are multiplied onto the depth one after the other.
  For maps of different shapes the result is numpy's broadcast.
\<close>

definition same_shape :: "'a list list \<Rightarrow> 'b list list \<Rightarrow> bool" where
  "same_shape a b = (map length a = map length b)"

definition mask_pixel :: "real \<Rightarrow> real \<Rightarrow> npfloat \<Rightarrow> npfloat \<Rightarrow> npfloat" where
  "mask_pixel max_t min_t dv sv =
     times_bool (times_bool dv (np_less dv max_t)) (np_greater sv min_t)"

definition mask_depth ::
  "externals \<Rightarrow> depth_map \<Rightarrow> depth_map \<Rightarrow> real \<Rightarrow> real \<Rightarrow> error + depth_map" where
  "mask_depth ext depth score max_depth min_score =
     (if same_shape depth score
      then Inr (map2 (map2 (mask_pixel (to_map_precision ext max_depth)
                                       (to_map_precision ext min_score)))
                  depth score)
      else broadcast_mask ext depth score max_depth min_score)"

text \<open>
  The optional debug export of the estimate and clean stages: the image is loaded,
  scaled down to the depthmap and the PLY text is written to the dataset.
\<close>

definition save_debug_ply ::
  "externals \<Rightarrow> shot \<Rightarrow> depth_map \<Rightarrow> string \<Rightarrow> world \<Rightarrow> error option \<times> world" where
  "save_debug_ply ext sh depth suffix w =
     (if depthmap_save_debug_files (config (data w))
      then
        (case load_undistorted_image (data w) (shot_id sh) of
           Inl e \<Rightarrow> (Some e, w)
         | Inr img \<Rightarrow>
             (case scale_down_image ext img (shape1 depth) (shape0 depth) INTER_AREA of
                Inl e \<Rightarrow> (Some e, w)
              | Inr img \<Rightarrow>
                  (case depthmap_to_ply ext sh depth img of
                     Inl e \<Rightarrow> (Some e, w)
                   | Inr ply \<Rightarrow>
                       (None,
                        w\<lparr>data := write_depthmap_file (data w) (shot_id sh) suffix ply\<rparr>))))
      else (None, w))"

text \<open>
  \<open>compute_depthmap\<close>. The result is the exception raised, if any, and the state left
  behind. The interactive display at the end of the function changes neither the dataset
  nor the objects of \<open>pydense\<close> and is left out.
\<close>

definition compute_depthmap ::
  "externals \<Rightarrow> shot list \<Rightarrow> real \<Rightarrow> real \<Rightarrow> shot \<Rightarrow> world \<Rightarrow> error option \<times> world" where
  "compute_depthmap ext neighbors min_depth max_depth sh w =
     (let method = depthmap_method (config (data w)) in
      if raw_depthmap_exists (data w) (shot_id sh)
      then (None, logger INFO (''Using precomputed raw depthmap '' @ shot_id sh) w)
      else
        (let w = logger INFO
                   (''Computing depthmap for image '' @ shot_id sh @ '' with '' @ method) w;
             de = \<lparr>de_min_depth = min_depth, de_max_depth = max_depth,
                   de_num_depth_planes = 100,
                   de_patchmatch_iterations = depthmap_patchmatch_iterations (config (data w)),
                   de_patch_size = depthmap_patch_size (config (data w)),
                   de_min_patch_sd = depthmap_min_patch_sd (config (data w)),
                   de_views = []\<rparr>;
             cs = calls w @ [''DepthmapEstimator'', ''DepthmapEstimator.set_depth_range'',
                    ''DepthmapEstimator.set_patchmatch_iterations'',
                    ''DepthmapEstimator.set_patch_size'', ''DepthmapEstimator.set_min_patch_sd'']
         in case add_views_to_depth_estimator ext (data w) neighbors de cs of
              (Some e, de, cs) \<Rightarrow> (Some e, w\<lparr>calls := cs\<rparr>)
            | (None, de, cs) \<Rightarrow>
                (case compute_by_method ext method de of
                   None \<Rightarrow> (Some ValueError, w\<lparr>calls := cs\<rparr>)
                 | Some (Inl e) \<Rightarrow>
                     (Some e, w\<lparr>calls := cs @ [''DepthmapEstimator.compute'']\<rparr>)
                 | Some (Inr (depth, plane, score, nghbr)) \<Rightarrow>
                     (let w = w\<lparr>calls := cs @ [''DepthmapEstimator.compute'']\<rparr> in
                      case mask_depth ext depth score max_depth
                             (depthmap_min_correlation_score (config (data w))) of
                        Inl e \<Rightarrow> (Some e, w)
                      | Inr depth \<Rightarrow>
                          (let neighbor_ids = map shot_id (slice_from_1 neighbors);
                               w = w\<lparr>data := save_raw_depthmap (data w) (shot_id sh)
                                                depth plane score nghbr neighbor_ids\<rparr>
                           in save_debug_ply ext sh depth ''raw.npz.ply'' w)))))"

text \<open>\<open>clean_depthmap\<close>.\<close>

definition clean_depthmap ::
  "externals \<Rightarrow> shot list \<Rightarrow> shot \<Rightarrow> world \<Rightarrow> error option \<times> world" where
  "clean_depthmap ext neighbors sh w =
     (if clean_depthmap_exists (data w) (shot_id sh)
      then (None, logger INFO (''Using precomputed clean depthmap '' @ shot_id sh) w)
      else
        (let w = logger INFO (''Cleaning depthmap for image '' @ shot_id sh) w;
             dc = \<lparr>dc_same_depth_threshold = depthmap_same_depth_threshold (config (data w)),
                   dc_min_consistent_views = depthmap_min_consistent_views (config (data w)),
                   dc_views = []\<rparr>;
             cs = calls w @ [''DepthmapCleaner'', ''DepthmapCleaner.set_same_depth_threshold'',
                    ''DepthmapCleaner.set_min_consistent_views''];
             (dc, cs) = add_views_to_depth_cleaner (data w) neighbors dc cs;
             w = w\<lparr>calls := cs @ [''DepthmapCleaner.clean'']\<rparr>
         in case clean ext dc of
              Inl e \<Rightarrow> (Some e, w)
            | Inr depth \<Rightarrow>
                (case load_raw_depthmap (data w) (shot_id sh) of
                   Inl e \<Rightarrow> (Some e, w)
                 | Inr raw \<Rightarrow>
                     (let w = w\<lparr>data := save_clean_depthmap (data w) (shot_id sh) depth
                                          (raw_plane raw) (raw_score raw)\<rparr>
                      in save_debug_ply ext sh depth ''clean.npz.ply'' w))))"

text \<open>\<open>prune_depthmap\<close>.\<close>

definition prune_depthmap ::
  "externals \<Rightarrow> shot list \<Rightarrow> shot \<Rightarrow> world \<Rightarrow> error option \<times> world" where
  "prune_depthmap ext neighbors sh w =
     (if pruned_depthmap_exists (data w) (shot_id sh)
      then (None, logger INFO (''Using precomputed pruned depthmap '' @ shot_id sh) w)
      else
        (let w = logger INFO (''Pruning depthmap for image '' @ shot_id sh) w;
             dp = \<lparr>dp_same_depth_threshold = depthmap_same_depth_threshold (config (data w)),
                   dp_views = []\<rparr>;
             cs = calls w @ [''DepthmapPruner'', ''DepthmapPruner.set_same_depth_threshold'']
         in case add_views_to_depth_pruner ext (data w) neighbors dp cs of
              (Some e, dp, cs) \<Rightarrow> (Some e, w\<lparr>calls := cs\<rparr>)
            | (None, dp, cs) \<Rightarrow>
                (let w = w\<lparr>calls := cs @ [''DepthmapPruner.prune'']\<rparr> in
                 case prune ext dp of
                   Inl e \<Rightarrow> (Some e, w)
                 | Inr c \<Rightarrow>
                     (let w = w\<lparr>data := save_pruned_depthmap (data w) (shot_id sh) c\<rparr>
                      in if depthmap_save_debug_files (config (data w))
                         then (None, w\<lparr>data := save_point_cloud (data w) c ''pruned.npz.ply''\<rparr>)
                         else (None, w)))))"

text \<open>
  The objects the cleaner and the estimator have been configured to when their
  computation is called.
\<close>

definition cleaner_for :: "dataset \<Rightarrow> shot list \<Rightarrow> cleaner" where
  "cleaner_for d neighbors =
     fst (add_views_to_depth_cleaner d neighbors
       \<lparr>dc_same_depth_threshold = depthmap_same_depth_threshold (config d),
        dc_min_consistent_views = depthmap_min_consistent_views (config d),
        dc_views = []\<rparr> [])"


text \<open>
  \<open>merge_depthmaps\<close>: the shots of the reconstruction, in its order, that have a pruned
  depthmap, merged with the dataset's loader as provider.
\<close>

definition merge_depthmaps :: "dataset \<Rightarrow> reconstruction \<Rightarrow> log_record list \<times> (error + cloud)" where
  "merge_depthmaps d rc =
     (let shot_ids = filter (\<lambda>s. pruned_depthmap_exists d s) (map fst (shots rc));
          depthmap_provider = (\<lambda>sid. load_pruned_depthmap d sid)
      in merge_depthmaps_from_provider shot_ids depthmap_provider)"

subsection \<open>A small scene\<close>

text \<open>
  Three cameras looking at points at the world origin: camera A at \<open>(13, 0, 0)\<close>,
  cameras B and C at \<open>(12, 5, 0)\<close> and \<open>(12, -5, 0)\<close>, so that the angle at the
  origin between A and either of the others is \<open>arccos (12 / 13)\<close>, about 22.6 degrees.
\<close>

definition camera_at :: "vec3 \<Rightarrow> pose" where
  "camera_at c =
     \<lparr>rotation = ((1, 0, 0), (0, 1, 0), (0, 0, 1)),
      translation = (case c of (x, y, z) \<Rightarrow> (- x, - y, - z))\<rparr>"

definition scene_camera :: camera where
  "scene_camera = \<lparr>projection_type = ''perspective'', cam_width = 4, cam_height = 3\<rparr>"

definition shot_A :: shot where
  "shot_A = \<lparr>shot_id = ''A'', shot_camera = scene_camera, shot_pose = camera_at (13, 0, 0)\<rparr>"

definition shot_B :: shot where
  "shot_B = \<lparr>shot_id = ''B'', shot_camera = scene_camera, shot_pose = camera_at (12, 5, 0)\<rparr>"

definition shot_C :: shot where
  "shot_C = \<lparr>shot_id = ''C'', shot_camera = scene_camera, shot_pose = camera_at (12, - 5, 0)\<rparr>"

text \<open>\<open>n\<close> distinct track ids.\<close>

definition scene_tracks :: "nat \<Rightarrow> track_id list" where
  "scene_tracks n = map (\<lambda>k. replicate (Suc k) CHR ''t'') [0..<n]"

definition scene_reconstruction :: reconstruction where
  "scene_reconstruction =
     \<lparr>shots = [(''A'', shot_A), (''B'', shot_B), (''C'', shot_C)],
      points = map_of (map (\<lambda>t. (t, (0, 0, 0))) (scene_tracks 22))\<rparr>"

definition scene_table :: table where
  "scene_table =
     [(''A'', [(''B'', scene_tracks 22), (''C'', scene_tracks 21)]),
      (''B'', [(''A'', scene_tracks 22)]),
      (''C'', [(''A'', scene_tracks 21)])]"

text \<open>
  A camera at the world origin with the identity pose, observing five reconstructed
  points at depths 3, 1, 5, 2 and 4 and one track without a point.
\<close>

definition shot_D :: shot where
  "shot_D = \<lparr>shot_id = ''D'', shot_camera = scene_camera, shot_pose = camera_at (0, 0, 0)\<rparr>"

definition depth_tracks :: tracks_manager where
  "depth_tracks = [(''D'', [''p3'', ''p1'', ''u'', ''p5'', ''p2'', ''p4''])]"

definition depth_reconstruction :: reconstruction where
  "depth_reconstruction =
     \<lparr>shots = [(''D'', shot_D)],
      points = map_of [(''p1'', (0, 0, 1)), (''p2'', (1, 0, 2)), (''p3'', (0, 1, 3)),
                       (''p4'', (0, 0, 4)), (''p5'', (2, 2, 5))]\<rparr>"

definition scene_config :: config where
  "scene_config =
     \<lparr>processes = 1, depthmap_num_neighbors = 10, depthmap_method = ''PATCH_MATCH_SAMPLE'',
      depthmap_min_depth = 0, depthmap_max_depth = 50,
      depthmap_patchmatch_iterations = 3, depthmap_patch_size = 7,
      depthmap_min_patch_sd = 1, depthmap_min_correlation_score = 1 / 10,
      depthmap_num_matching_views = 6, depthmap_resolution = 640,
      depthmap_same_depth_threshold = 1 / 100, depthmap_min_consistent_views = 3,
      depthmap_save_debug_files = False, interactive = False\<rparr>"

text \<open>
  A dataset with two-by-two images for the shots A and B and no depthmaps yet, and
  external capabilities that return fixed maps. The estimator's depth map has a zero
  depth at a pixel of good score, an infinite depth, a depth above the maximum, a pixel
  of low score, and a pixel whose score is 0.1 rounded to float32, which is
  \<open>13421773 / 134217728\<close> and above 0.1. The conversion of a threshold rounds 0.1 to
  that number and leaves the other thresholds of the scene, which float32 represents, as
  they are.
\<close>

definition scene_estimate :: "depth_map \<times> plane_map \<times> depth_map \<times> index_map" where
  "scene_estimate =
     ([[Finite 0, Finite 2, PosInf], [Finite 20, Finite 3, Finite 4]],
      [[(0, 0, 1), (0, 0, 1), (0, 0, 1)], [(0, 0, 1), (0, 0, 1), (0, 0, 1)]],
      [[Finite 1, Finite 1, Finite 1], [Finite 1, Finite 0, Finite (13421773 / 134217728)]],
      [[1, 1, 1], [1, 1, 1]])"

definition scene_cloud :: cloud where
  "scene_cloud = ([(0, 0, 2)], [(0, 0, 1)], [(255, 0, 0)], [0])"

definition scene_externals :: externals where
  "scene_externals =
     \<lparr>compute_brute_force = (\<lambda>de. Inl NativeError),
      compute_patch_match = (\<lambda>de. Inl NativeError),
      compute_patch_match_sample = (\<lambda>de. Inr scene_estimate),
      clean = (\<lambda>dc. Inr [[Finite 0, Finite 2, Finite 0], [Finite 0, Finite 0, Finite 0]]),
      prune = (\<lambda>dp. Inr scene_cloud),
      cvtColor = (\<lambda>img. Inr img),
      resize = (\<lambda>img width height interp. Inr img),
      depthmap_to_ply = (\<lambda>sh depth img. Inr ''ply''),
      to_map_precision = (\<lambda>t. if t = 1 / 10 then 13421773 / 134217728 else t),
      broadcast_mask = (\<lambda>depth score max_depth min_score. Inl ValueError)\<rparr>"

definition scene_dataset :: dataset where
  "scene_dataset =
     \<lparr>config = scene_config,
      raw_depthmaps = Map.empty,
      clean_depthmaps = Map.empty,
      pruned_depthmaps = Map.empty,
      undistorted_images = [''A'' \<mapsto> [[1, 2], [3, 4]], ''B'' \<mapsto> [[5, 6], [7, 8]]],
      undistorted_combined_masks = Map.empty,
      undistorted_segmentations = Map.empty,
      depthmap_files = Map.empty,
      point_clouds = Map.empty\<rparr>"


definition scene_raw :: raw_depthmap where
  "scene_raw =
     \<lparr>raw_depth = [[Finite 0, Finite 2, NaN], [Finite 0, Finite 0, Finite 0]],
      raw_plane = [[(0, 0, 1), (0, 0, 1), (0, 0, 1)], [(0, 0, 1), (0, 0, 1), (0, 0, 1)]],
      raw_score =
        [[Finite 1, Finite 1, Finite 1], [Finite 1, Finite 0, Finite (13421773 / 134217728)]],
      raw_nghbr = [[1, 1, 1], [1, 1, 1]],
      raw_nghbrs = [''B'']\<rparr>"

definition scene_clean :: clean_depthmap where
  "scene_clean =
     \<lparr>clean_depth = [[Finite 0, Finite 2, Finite 0], [Finite 0, Finite 0, Finite 0]],
      clean_plane = [[(0, 0, 1), (0, 0, 1), (0, 0, 1)], [(0, 0, 1), (0, 0, 1), (0, 0, 1)]],
      clean_score =
        [[Finite 1, Finite 1, Finite 1], [Finite 1, Finite 0, Finite (13421773 / 134217728)]]\<rparr>"

text \<open>The scene after the estimate stage of shot A, and after all three stages.\<close>

definition scene_world_raw :: world where
  "scene_world_raw =
     \<lparr>data = scene_dataset\<lparr>raw_depthmaps := [''A'' \<mapsto> scene_raw]\<rparr>, logged = [], calls = []\<rparr>"

definition scene_world_done :: world where
  "scene_world_done =
     \<lparr>data = scene_dataset\<lparr>raw_depthmaps := [''A'' \<mapsto> scene_raw],
                            clean_depthmaps := [''A'' \<mapsto> scene_clean],
                            pruned_depthmaps := [''A'' \<mapsto> scene_cloud]\<rparr>,
      logged = [], calls = []\<rparr>"

section \<open>Properties\<close>

subsection \<open>Common-track table\<close>

lemma map_of_empty_rows:
  "map_of (foldl (\<lambda>d image. AList.update image [] d) d0 ids) a =
     (if a \<in> set ids then Some [] else map_of d0 a)"
  by (induction ids arbitrary: d0) (auto simp: update_conv')

lemma keys_empty_rows:
  "set (map fst (foldl (\<lambda>d image. AList.update image [] d) d0 ids)) = set (map fst d0) \<union> set ids"
proof (induction ids arbitrary: d0)
  case Nil
  then show ?case by simp
next
  case (Cons i ids)
  have "fst ` set (AList.update i [] d0) = insert i (fst ` set d0)"
    using dom_update [of i "[]" d0] by (simp add: dom_map_of_conv_image_fst)
  with Cons show ?case by auto
qed

lemma keys_update: "fst ` set (AList.update k v al) = insert k (fst ` set al)"
  using dom_update [of k v al] by (simp add: dom_map_of_conv_image_fst)

lemma set_inner_keys:
  assumes "set_inner res a b v = Inr res'"
  shows "fst ` set res' = fst ` set res"
proof -
  from assms obtain inner where i: "map_of res a = Some inner"
    and r: "res' = AList.update a (AList.update b v inner) res"
    by (auto simp: set_inner_def split: option.splits)
  from i have "a \<in> fst ` set res" by (metis map_of_eq_None_iff option.distinct(1))
  with r show ?thesis by (auto simp: keys_update)
qed

lemma set_inner_map_of:
  assumes "set_inner res a b v = Inr res'"
  shows "map_of res' x = (if x = a then map_option (AList.update b v) (map_of res a) else map_of res x)"
proof -
  from assms obtain inner where i: "map_of res a = Some inner"
    and r: "res' = AList.update a (AList.update b v inner) res"
    by (auto simp: set_inner_def split: option.splits)
  show ?thesis by (simp add: r i update_conv')
qed

lemma set_inner_get:
  assumes "set_inner res a b v = Inr res'"
  shows "table_get res' x y = (if x = a \<and> y = b then Some v else table_get res x y)"
proof -
  from assms obtain inner where i: "map_of res a = Some inner"
    by (auto simp: set_inner_def split: option.splits)
  show ?thesis
    by (simp add: table_get_def set_inner_map_of [OF assms] i update_conv')
qed

lemma set_both_get:
  assumes "set_inner res im1 im2 v = Inr res1" and "set_inner res1 im2 im1 v = Inr res2"
  shows "table_get res2 x y =
     (if (x = im1 \<and> y = im2) \<or> (x = im2 \<and> y = im1) then Some v else table_get res x y)"
proof -
  note first = set_inner_get [OF assms(1)]
  note second = set_inner_get [OF assms(2)]
  show ?thesis
    apply (subst second)
    apply (subst first)
    apply (cases "x = im1"; cases "y = im2"; cases "x = im2"; cases "y = im1"; simp)
    done
qed

lemma set_inner_defined:
  "a \<in> fst ` set res \<Longrightarrow> \<exists>res'. set_inner res a b v = Inr res'"
  unfolding set_inner_def
  by (auto split: option.splits simp: map_of_eq_None_iff)

lemma loop_returns:
  "\<forall>((a, b), v) \<in> set pairs. a \<in> fst ` set res \<and> b \<in> fst ` set res \<Longrightarrow>
   \<exists>res'. common_tracks_loop pairs res = Inr res'"
proof (induction pairs arbitrary: res)
  case Nil
  then show ?case by simp
next
  case (Cons p pairs)
  obtain im1 im2 v where p: "p = ((im1, im2), v)" by (metis prod.exhaust)
  from Cons.prems p have m: "im1 \<in> fst ` set res" "im2 \<in> fst ` set res" by auto
  from set_inner_defined [OF m(1)] obtain res1 where r1: "set_inner res im1 im2 v = Inr res1"
    by blast
  have k1: "fst ` set res1 = fst ` set res" by (rule set_inner_keys [OF r1])
  from set_inner_defined [of im2 res1 im1 v] m(2) k1
  obtain res2 where r2: "set_inner res1 im2 im1 v = Inr res2" by auto
  have k2: "fst ` set res2 = fst ` set res" using set_inner_keys [OF r2] k1 by simp
  have "\<forall>((a, b), v) \<in> set pairs. a \<in> fst ` set res2 \<and> b \<in> fst ` set res2"
    using Cons.prems k2 by auto
  from Cons.IH [OF this] show ?case using p r1 r2 by simp
qed

lemma loop_keys:
  "common_tracks_loop pairs res = Inr res' \<Longrightarrow> fst ` set res' = fst ` set res"
proof (induction pairs arbitrary: res)
  case Nil
  then show ?case by simp
next
  case (Cons p pairs)
  obtain im1 im2 v where p: "p = ((im1, im2), v)" by (metis prod.exhaust)
  from Cons.prems p obtain res1 res2 where
    r: "set_inner res im1 im2 v = Inr res1" "set_inner res1 im2 im1 v = Inr res2"
       "common_tracks_loop pairs res2 = Inr res'"
    by (auto split: sum.splits)
  show ?case using Cons.IH [OF r(3)] set_inner_keys [OF r(1)] set_inner_keys [OF r(2)] by simp
qed

lemma loop_symmetric:
  "common_tracks_loop pairs res = Inr res' \<Longrightarrow>
   \<forall>a b. table_get res a b = table_get res b a \<Longrightarrow>
   table_get res' a b = table_get res' b a"
proof (induction pairs arbitrary: res)
  case Nil
  then show ?case by simp
next
  case (Cons p pairs)
  obtain im1 im2 v where p: "p = ((im1, im2), v)" by (metis prod.exhaust)
  from Cons.prems(1) p obtain res1 res2 where
    r: "set_inner res im1 im2 v = Inr res1" "set_inner res1 im2 im1 v = Inr res2"
       "common_tracks_loop pairs res2 = Inr res'"
    by (auto split: sum.splits)
  have "\<forall>a b. table_get res2 a b = table_get res2 b a"
  proof (intro allI)
    fix x y
    have h: "table_get res x y = table_get res y x" using Cons.prems(2) by blast
    show "table_get res2 x y = table_get res2 y x"
      unfolding set_both_get [OF r(1) r(2)] using h by auto
  qed
  from Cons.IH [OF r(3) this] show ?case .
qed

lemma loop_keeps_entries:
  "common_tracks_loop pairs res = Inr res' \<Longrightarrow> table_get res a b \<noteq> None \<Longrightarrow>
   table_get res' a b \<noteq> None"
proof (induction pairs arbitrary: res)
  case Nil
  then show ?case by simp
next
  case (Cons p pairs)
  obtain im1 im2 v where p: "p = ((im1, im2), v)" by (metis prod.exhaust)
  from Cons.prems(1) p obtain res1 res2 where
    r: "set_inner res im1 im2 v = Inr res1" "set_inner res1 im2 im1 v = Inr res2"
       "common_tracks_loop pairs res2 = Inr res'"
    by (auto split: sum.splits)
  have "table_get res2 a b \<noteq> None"
    using Cons.prems(2) by (simp add: set_both_get [OF r(1) r(2)])
  from Cons.IH [OF r(3) this] show ?case .
qed

lemma loop_covers_pairs:
  "common_tracks_loop pairs res = Inr res' \<Longrightarrow> ((a, b), v) \<in> set pairs \<Longrightarrow>
   table_get res' a b \<noteq> None"
proof (induction pairs arbitrary: res)
  case Nil
  then show ?case by simp
next
  case (Cons p pairs)
  obtain im1 im2 w where p: "p = ((im1, im2), w)" by (metis prod.exhaust)
  from Cons.prems(1) p obtain res1 res2 where
    r: "set_inner res im1 im2 w = Inr res1" "set_inner res1 im2 im1 w = Inr res2"
       "common_tracks_loop pairs res2 = Inr res'"
    by (auto split: sum.splits)
  show ?case
  proof (cases "((a, b), v) \<in> set pairs")
    case True
    from Cons.IH [OF r(3) this] show ?thesis .
  next
    case False
    with Cons.prems(2) p have "a = im1" "b = im2" by auto
    then have "table_get res2 a b \<noteq> None"
      by (simp add: set_both_get [OF r(1) r(2)])
    from loop_keeps_entries [OF r(3) this] show ?thesis .
  qed
qed

lemma loop_untouched_row:
  "common_tracks_loop pairs res = Inr res' \<Longrightarrow>
   \<forall>((x, y), v) \<in> set pairs. x \<noteq> a \<and> y \<noteq> a \<Longrightarrow> map_of res' a = map_of res a"
proof (induction pairs arbitrary: res)
  case Nil
  then show ?case by simp
next
  case (Cons p pairs)
  obtain im1 im2 w where p: "p = ((im1, im2), w)" by (metis prod.exhaust)
  from Cons.prems(1) p obtain res1 res2 where
    r: "set_inner res im1 im2 w = Inr res1" "set_inner res1 im2 im1 w = Inr res2"
       "common_tracks_loop pairs res2 = Inr res'"
    by (auto split: sum.splits)
  from Cons.prems(2) p have ne: "im1 \<noteq> a" "im2 \<noteq> a" by auto
  have "map_of res2 a = map_of res a"
    using ne by (simp add: set_inner_map_of [OF r(1)] set_inner_map_of [OF r(2)])
  moreover have "map_of res' a = map_of res2 a"
    using Cons.IH [OF r(3)] Cons.prems(2) by auto
  ultimately show ?case by simp
qed

lemma table_get_empty_rows: "table_get (empty_rows ids) a b = None"
  by (simp add: table_get_def empty_rows_def map_of_empty_rows)

text \<open>
  Claim C5. Provided every shot named by a pair of the common-track dictionary is a shot
  of the track graph (otherwise the function raises KeyError), the table is returned, it
  is symmetric (\<open>table[a][b]\<close> and \<open>table[b][a]\<close> are the same list, or both absent),
  every pair of the dictionary is present in both directions, its keys are exactly the
  shot ids of the track graph, and a shot that occurs in no pair is mapped to an empty
  inner dictionary.
\<close>

theorem common_tracks_double_dict_symmetric:
  assumes "\<forall>((a, b), v) \<in> set (act tm). a \<in> set (get_shot_ids tm) \<and> b \<in> set (get_shot_ids tm)"
  shows "\<exists>res. common_tracks_double_dict act tm = Inr res
     \<and> (\<forall>a b. table_get res a b = table_get res b a)
     \<and> (\<forall>((a, b), v) \<in> set (act tm). \<exists>w. table_get res a b = Some w \<and> table_get res b a = Some w)
     \<and> set (map fst res) = set (get_shot_ids tm)
     \<and> (\<forall>a \<in> set (get_shot_ids tm).
           (\<forall>((x, y), v) \<in> set (act tm). x \<noteq> a \<and> y \<noteq> a) \<longrightarrow> map_of res a = Some [])"
proof -
  let ?ids = "get_shot_ids tm"
  have k0: "fst ` set (empty_rows ?ids) = set ?ids"
    using keys_empty_rows [of "[]" ?ids] by (simp add: empty_rows_def)
  from loop_returns [of "act tm" "empty_rows ?ids"] assms k0
  obtain res where res: "common_tracks_loop (act tm) (empty_rows ?ids) = Inr res" by auto
  have r: "common_tracks_double_dict act tm = Inr res"
    by (simp add: common_tracks_double_dict_def res)
  have sym: "\<forall>a b. table_get res a b = table_get res b a"
    using loop_symmetric [OF res] by (simp add: table_get_empty_rows)
  have cov: "\<forall>((a, b), v) \<in> set (act tm). \<exists>w. table_get res a b = Some w \<and> table_get res b a = Some w"
    using loop_covers_pairs [OF res] sym by fastforce
  have keys: "set (map fst res) = set ?ids"
    using loop_keys [OF res] k0 by simp
  have empty: "\<forall>a \<in> set ?ids. (\<forall>((x, y), v) \<in> set (act tm). x \<noteq> a \<and> y \<noteq> a) \<longrightarrow> map_of res a = Some []"
    using loop_untouched_row [OF res] by (simp add: empty_rows_def map_of_empty_rows)
  from r sym cov keys empty show ?thesis by blast
qed

theorem common_tracks_double_dict_symmetric_witness:
  "''a'' \<in> set (get_shot_ids [(''a'', [''t1'']), (''b'', [''t1'']), (''c'', [])]) \<and>
   ''b'' \<in> set (get_shot_ids [(''a'', [''t1'']), (''b'', [''t1'']), (''c'', [])]) \<and>
   (\<exists>res. common_tracks_double_dict (\<lambda>tm. [((''a'', ''b''), [''t1''])])
            [(''a'', [''t1'']), (''b'', [''t1'']), (''c'', [])] = Inr res \<and>
      table_get res ''a'' ''b'' = table_get res ''b'' ''a'' \<and>
      map_of res ''c'' = Some [])"
proof -
  let ?tm = "[(''a'', [''t1'']), (''b'', [''t1'']), (''c'', [])] :: tracks_manager"
  let ?act = "\<lambda>tm :: tracks_manager. [((''a'', ''b''), [''t1''])]"
  have h: "\<forall>((a, b), v) \<in> set (?act ?tm). a \<in> set (get_shot_ids ?tm) \<and> b \<in> set (get_shot_ids ?tm)"
    by (simp add: get_shot_ids_def)
  from common_tracks_double_dict_symmetric [of ?act ?tm, OF h]
  obtain res where r: "common_tracks_double_dict ?act ?tm = Inr res"
    and s: "\<forall>a b. table_get res a b = table_get res b a"
    and e: "\<forall>a \<in> set (get_shot_ids ?tm).
           (\<forall>((x, y), v) \<in> set (?act ?tm). x \<noteq> a \<and> y \<noteq> a) \<longrightarrow> map_of res a = Some []"
    by blast
  from e have "map_of res ''c'' = Some []" by (simp add: get_shot_ids_def)
  moreover have "''a'' \<in> set (get_shot_ids ?tm)" "''b'' \<in> set (get_shot_ids ?tm)"
    by (simp_all add: get_shot_ids_def)
  ultimately show ?thesis using r s by blast
qed

subsection \<open>Point-cloud merger\<close>

lemma aggregate_loop_all:
  "\<forall>s \<in> set shot_ids. provider s = Inr (g s) \<Longrightarrow>
   aggregate_loop shot_ids provider (ps, ns, cs, ls) =
     Inr (ps @ map (\<lambda>s. fst (g s)) shot_ids,
          ns @ map (\<lambda>s. fst (snd (g s))) shot_ids,
          cs @ map (\<lambda>s. fst (snd (snd (g s)))) shot_ids,
          ls @ map (\<lambda>s. snd (snd (snd (g s)))) shot_ids)"
proof (induction shot_ids arbitrary: ps ns cs ls)
  case Nil
  then show ?case by simp
next
  case (Cons s rest)
  obtain p n c l where g: "g s = (p, n, c, l)" by (metis prod_cases4)
  from Cons.prems have s: "provider s = Inr (p, n, c, l)" and
    rest: "\<forall>s \<in> set rest. provider s = Inr (g s)" by (simp_all add: g)
  show ?case by (simp add: s Cons.IH [OF rest] g)
qed

lemma aggregate_depthmaps_all:
  assumes "shot_ids \<noteq> []" and "\<forall>s \<in> set shot_ids. provider s = Inr (g s)"
  shows "aggregate_depthmaps shot_ids provider =
     Inr (concat (map (\<lambda>s. fst (g s)) shot_ids),
          concat (map (\<lambda>s. fst (snd (g s))) shot_ids),
          concat (map (\<lambda>s. fst (snd (snd (g s)))) shot_ids),
          concat (map (\<lambda>s. snd (snd (snd (g s)))) shot_ids))"
  using assms(1)
  by (simp add: aggregate_depthmaps_def aggregate_loop_all [OF assms(2)] np_concatenate_def)

lemma aggregate_depthmaps_empty: "aggregate_depthmaps [] provider = Inl ValueError"
  by (simp add: aggregate_depthmaps_def np_concatenate_def)

text \<open>
  In \<open>merge_depthmaps\<close> the provider loads exactly the shots that have a pruned
  depthmap, so the merge of a dataset never raises.
\<close>

lemma merge_depthmaps_returns: "\<exists>c. snd (merge_depthmaps d rc) = Inr c"
proof -
  let ?ids = "filter (\<lambda>s. pruned_depthmap_exists d s) (map fst (shots rc))"
  let ?g = "\<lambda>s. the (pruned_depthmaps d s)"
  have ok: "\<forall>s \<in> set ?ids. load_pruned_depthmap d s = Inr (?g s)"
    by (auto simp: load_pruned_depthmap_def pruned_depthmap_exists_def)
  show ?thesis
  proof (cases "?ids = []")
    case True
    then show ?thesis
      by (simp add: merge_depthmaps_def merge_depthmaps_from_provider_def)
  next
    case False
    from aggregate_depthmaps_all [OF False ok] False show ?thesis
      by (simp add: merge_depthmaps_def merge_depthmaps_from_provider_def)
  qed
qed

text \<open>
  Claim C7. With no shot ids the merger logs a warning and returns four empty arrays, not
  an exception. With shot ids whose pruned arrays the provider loads (\<open>g\<close> names what
  it loads), the result is the concatenation of the per-shot arrays in the order of the
  shot ids and no warning is logged. For two shots contributing \<open>p1\<close> and \<open>p2\<close> the
  merged points are \<open>length p1 + length p2\<close> many, the first shot's points first and
  the second shot's after them.
\<close>

theorem merge_depthmaps_from_provider_concat:
  "merge_depthmaps_from_provider [] provider =
     ([(INFO, ''Merging depthmaps''),
       (WARNING, ''Depthmaps contain no points.  Try using more images.'')],
      Inr ([], [], [], []))
   \<and> (shot_ids \<noteq> [] \<and> (\<forall>s \<in> set shot_ids. provider s = Inr (g s)) \<longrightarrow>
        merge_depthmaps_from_provider shot_ids provider =
          ([(INFO, ''Merging depthmaps'')],
           Inr (concat (map (\<lambda>s. fst (g s)) shot_ids),
                concat (map (\<lambda>s. fst (snd (g s))) shot_ids),
                concat (map (\<lambda>s. fst (snd (snd (g s)))) shot_ids),
                concat (map (\<lambda>s. snd (snd (snd (g s)))) shot_ids)))
   \<and> (provider s1 = Inr (p1, n1, c1, l1) \<and> provider s2 = Inr (p2, n2, c2, l2) \<longrightarrow>
        (\<exists>ps ns cs ls.
           snd (merge_depthmaps_from_provider [s1, s2] provider) = Inr (ps, ns, cs, ls) \<and>
           length ps = length p1 + length p2 \<and>
           take (length p1) ps = p1 \<and> drop (length p1) ps = p2)))"
proof (intro conjI impI)
  show "merge_depthmaps_from_provider [] provider =
     ([(INFO, ''Merging depthmaps''),
       (WARNING, ''Depthmaps contain no points.  Try using more images.'')],
      Inr ([], [], [], []))"
    by (simp add: merge_depthmaps_from_provider_def)
next
  assume a: "shot_ids \<noteq> [] \<and> (\<forall>s \<in> set shot_ids. provider s = Inr (g s))"
  then show "merge_depthmaps_from_provider shot_ids provider =
          ([(INFO, ''Merging depthmaps'')],
           Inr (concat (map (\<lambda>s. fst (g s)) shot_ids),
                concat (map (\<lambda>s. fst (snd (g s))) shot_ids),
                concat (map (\<lambda>s. fst (snd (snd (g s)))) shot_ids),
                concat (map (\<lambda>s. snd (snd (snd (g s)))) shot_ids)))"
    using aggregate_depthmaps_all [of shot_ids provider g]
    by (simp add: merge_depthmaps_from_provider_def)
next
  assume a: "provider s1 = Inr (p1, n1, c1, l1) \<and> provider s2 = Inr (p2, n2, c2, l2)"
  have "snd (merge_depthmaps_from_provider [s1, s2] provider) =
      Inr (p1 @ p2, n1 @ n2, c1 @ c2, l1 @ l2)"
    using a by (simp add: merge_depthmaps_from_provider_def aggregate_depthmaps_def
        np_concatenate_def)
  then show "\<exists>ps ns cs ls.
           snd (merge_depthmaps_from_provider [s1, s2] provider) = Inr (ps, ns, cs, ls) \<and>
           length ps = length p1 + length p2 \<and>
           take (length p1) ps = p1 \<and> drop (length p1) ps = p2"
    by simp
qed

theorem merge_depthmaps_from_provider_concat_witness:
  "merge_depthmaps_from_provider [''s1'', ''s2'']
     (\<lambda>s. if s = ''s1'' then Inr ([(1, 0, 0), (2, 0, 0)], [(0, 0, 1), (0, 0, 1)], [(9, 9, 9), (8, 8, 8)], [1, 1])
          else Inr ([(3, 0, 0)], [(0, 1, 0)], [(7, 7, 7)], [2])) =
     ([(INFO, ''Merging depthmaps'')],
      Inr ([(1, 0, 0), (2, 0, 0), (3, 0, 0)], [(0, 0, 1), (0, 0, 1), (0, 1, 0)],
           [(9, 9, 9), (8, 8, 8), (7, 7, 7)], [1, 1, 2]))"
proof -
  let ?c1 = "([(1, 0, 0), (2, 0, 0)], [(0, 0, 1), (0, 0, 1)], [(9, 9, 9), (8, 8, 8)], [1, 1]) :: cloud"
  let ?c2 = "([(3, 0, 0)], [(0, 1, 0)], [(7, 7, 7)], [2]) :: cloud"
  let ?g = "\<lambda>s :: shot_id. if s = ''s1'' then ?c1 else ?c2"
  let ?provider = "\<lambda>s :: shot_id. if s = ''s1'' then Inr ?c1 else (Inr ?c2 :: error + cloud)"
  have h: "[''s1'', ''s2''] \<noteq> [] \<and> (\<forall>s \<in> set [''s1'', ''s2'']. ?provider s = Inr (?g s))"
    by simp
  from merge_depthmaps_from_provider_concat [of ?provider "[''s1'', ''s2'']" ?g]
  have "[''s1'', ''s2''] \<noteq> [] \<and> (\<forall>s \<in> set [''s1'', ''s2'']. ?provider s = Inr (?g s)) \<longrightarrow>
        merge_depthmaps_from_provider [''s1'', ''s2''] ?provider =
          ([(INFO, ''Merging depthmaps'')],
           Inr (concat (map (\<lambda>s. fst (?g s)) [''s1'', ''s2'']),
                concat (map (\<lambda>s. fst (snd (?g s))) [''s1'', ''s2'']),
                concat (map (\<lambda>s. fst (snd (snd (?g s)))) [''s1'', ''s2'']),
                concat (map (\<lambda>s. snd (snd (snd (?g s)))) [''s1'', ''s2''])))"
    by blast
  with h show ?thesis by simp
qed

subsection \<open>Neighbour selection\<close>

lemma score_loop_count:
  "score_loop rc (get_origin (shot_pose sh)) (get_origin (shot_pose other)) tracks score =
     score + int (length (filter (qualifying rc sh other) tracks))"
  by (induction tracks arbitrary: score)
     (auto simp: qualifying_def theta_min_def theta_max_def split: option.splits)

lemma candidates_loop_mem:
  "x \<in> set (candidates_loop rc C1 row ns) \<longleftrightarrow>
     x \<in> set ns \<or>
     (\<exists>oid tracks. (oid, tracks) \<in> set row \<and> map_of (shots rc) oid = Some (fst x) \<and>
        snd x = score_loop rc C1 (get_origin (shot_pose (fst x))) tracks 0 \<and> snd x > 20)"
proof (induction row arbitrary: ns)
  case Nil
  then show ?case by simp
next
  case (Cons e row)
  obtain oid tracks where e: "e = (oid, tracks)" by (cases e)
  show ?case
  proof (cases "map_of (shots rc) oid")
    case None
    then show ?thesis using Cons.IH [of ns] e by auto
  next
    case (Some other)
    let ?score = "score_loop rc C1 (get_origin (shot_pose other)) tracks 0"
    show ?thesis
    proof (cases "?score > 20")
      case True
      then show ?thesis
        using Cons.IH [of "ns @ [(other, ?score)]"] e Some
        by (cases x) (auto simp: Let_def)
    next
      case False
      then show ?thesis
        using Cons.IH [of ns] e Some by (cases x) (auto simp: Let_def)
    qed
  qed
qed

lemma candidates_loop_filter:
  "candidates_loop rc C1 (filter (\<lambda>(oid, tracks). map_of (shots rc) oid \<noteq> None) row) ns =
   candidates_loop rc C1 row ns"
  by (induction row arbitrary: ns) (auto simp: Let_def split: option.splits)

lemma ranked_mem:
  "(other, score) \<in> set (ranked_candidates sh ct rc) \<longleftrightarrow>
     (\<exists>oid tracks. (oid, tracks) \<in> set (row_of ct sh) \<and> map_of (shots rc) oid = Some other \<and>
        score = int (length (filter (qualifying rc sh other) tracks)) \<and> score > 20)"
  unfolding ranked_candidates_def sort_by_score_def
  by (simp add: candidates_loop_mem score_loop_count)

lemma ranked_sorted:
  "sorted_wrt (\<lambda>a b. snd a \<ge> snd b) (ranked_candidates sh ct rc)"
proof -
  have "sorted (map (\<lambda>n. - snd n) (ranked_candidates sh ct rc))"
    unfolding ranked_candidates_def sort_by_score_def by (rule sorted_sort_key)
  then show ?thesis by (simp add: sorted_map sorted_wrt_iff_nth_less)
qed

lemma slice_upto_set: "set (slice_upto xs n) \<subseteq> set xs"
  by (auto simp: slice_upto_def dest: in_set_takeD)

lemma slice_upto_all: "int (length xs) \<le> n \<Longrightarrow> slice_upto xs n = xs"
  by (simp add: slice_upto_def)

lemma slice_upto_length: "0 \<le> n \<Longrightarrow> int (length (slice_upto xs n)) \<le> n"
  by (simp add: slice_upto_def)

lemma slice_upto_sorted: "sorted_wrt P xs \<Longrightarrow> sorted_wrt P (slice_upto xs n)"
  by (simp add: slice_upto_def sorted_wrt_take)

lemma sqrt3_bounds: "3 / 2 < sqrt 3 \<and> sqrt 3 < 24 / 13"
proof
  show "3 / 2 < sqrt 3" by (rule real_less_rsqrt) (simp add: power2_eq_square)
  show "sqrt 3 < 24 / 13" by (rule real_less_lsqrt) (simp_all add: power2_eq_square)
qed

lemma arccos_12_13: "pi / 60 < arccos (12 / 13) \<and> arccos (12 / 13) < pi / 6"
proof
  have c12: "12 / 13 < cos (pi / 12)"
  proof (rule power2_less_imp_less)
    have "cos (pi / 6) = 2 * (cos (pi / 12))\<^sup>2 - 1"
      using cos_double_cos [of "pi / 12"] by simp
    then have "sqrt 3 / 2 = 2 * (cos (pi / 12))\<^sup>2 - 1"
      by (simp only: cos_30)
    then have "(cos (pi / 12))\<^sup>2 = (1 + sqrt 3 / 2) / 2"
      by (simp add: field_simps)
    with sqrt3_bounds show "(12 / 13 :: real)\<^sup>2 < (cos (pi / 12))\<^sup>2"
      by (simp add: power2_eq_square)
    show "0 \<le> cos (pi / 12)"
      by (rule cos_ge_zero) (use pi_gt_zero in simp_all)
  qed
  have "cos (pi / 12) < cos (pi / 60)"
    by (rule cos_monotone_0_pi) (use pi_gt_zero in simp_all)
  with c12 have lo: "12 / 13 < cos (pi / 60)" by simp
  have "arccos (cos (pi / 60)) < arccos (12 / 13)"
    using lo by (subst arccos_less_mono) simp_all
  moreover have "arccos (cos (pi / 60)) = pi / 60"
    by (rule arccos_cos) (use pi_gt_zero in simp_all)
  ultimately show "pi / 60 < arccos (12 / 13)" by simp
  have "\<bar>sqrt 3 / 2\<bar> \<le> 1" using sqrt3_bounds by simp
  then have "arccos (12 / 13) < arccos (sqrt 3 / 2)"
    using sqrt3_bounds by (subst arccos_less_mono) simp_all
  moreover have "arccos (cos (pi / 6)) = pi / 6"
    by (rule arccos_cos) (use pi_gt_zero in simp_all)
  ultimately show "arccos (12 / 13) < pi / 6" by (simp add: cos_30)
qed

lemma scene_origins:
  "get_origin (shot_pose shot_A) = (13, 0, 0)"
  "get_origin (shot_pose shot_B) = (12, 5, 0)"
  "get_origin (shot_pose shot_C) = (12, - 5, 0)"
  by (simp_all add: get_origin_def shot_A_def shot_B_def shot_C_def camera_at_def)

lemma sqrt_28561: "sqrt 28561 = 169"
  by (rule real_sqrt_unique) simp_all

lemma scene_angles:
  "angle_between_points (0, 0, 0) (13, 0, 0) (12, 5, 0) = Some (arccos (12 / 13))"
  "angle_between_points (0, 0, 0) (13, 0, 0) (12, - 5, 0) = Some (arccos (12 / 13))"
  by (simp_all add: angle_between_points_def sqrt_28561)

lemma scene_tracks_mono: "m \<le> n \<Longrightarrow> set (scene_tracks m) \<subseteq> set (scene_tracks n)"
  by (auto simp: scene_tracks_def)

lemma length_scene_tracks: "length (scene_tracks n) = n"
  by (simp add: scene_tracks_def)

lemma map_of_const: "t \<in> set ts \<Longrightarrow> map_of (map (\<lambda>t. (t, c)) ts) t = Some c"
  by (induction ts) auto

lemma scene_points:
  "t \<in> set (scene_tracks 22) \<Longrightarrow> points scene_reconstruction t = Some (0, 0, 0)"
  by (simp add: scene_reconstruction_def map_of_const)

lemma scene_qualifying:
  assumes "t \<in> set (scene_tracks 22)"
  shows "qualifying scene_reconstruction shot_A shot_B t"
    and "qualifying scene_reconstruction shot_A shot_C t"
  using arccos_12_13
  by (simp_all add: qualifying_def scene_points [OF assms] scene_origins scene_angles)

lemma scene_counts:
  "length (filter (qualifying scene_reconstruction shot_A shot_B) (scene_tracks 22)) = 22"
  "length (filter (qualifying scene_reconstruction shot_A shot_C) (scene_tracks 21)) = 21"
proof -
  have "filter (qualifying scene_reconstruction shot_A shot_B) (scene_tracks 22) = scene_tracks 22"
    by (rule filter_True) (simp add: scene_qualifying)
  then show "length (filter (qualifying scene_reconstruction shot_A shot_B) (scene_tracks 22)) = 22"
    by (simp add: length_scene_tracks)
  have "set (scene_tracks 21) \<subseteq> set (scene_tracks 22)" by (rule scene_tracks_mono) simp
  then have "filter (qualifying scene_reconstruction shot_A shot_C) (scene_tracks 21) = scene_tracks 21"
    by (intro filter_True) (auto simp: scene_qualifying)
  then show "length (filter (qualifying scene_reconstruction shot_A shot_C) (scene_tracks 21)) = 21"
    by (simp add: length_scene_tracks)
qed

lemma scene_row: "row_of scene_table shot_A = [(''B'', scene_tracks 22), (''C'', scene_tracks 21)]"
  by (simp add: row_of_def scene_table_def shot_A_def)

lemma scene_ranked:
  "ranked_candidates shot_A scene_table scene_reconstruction = [(shot_B, 22), (shot_C, 21)]"
proof -
  have b: "map_of (shots scene_reconstruction) ''B'' = Some shot_B"
    and c: "map_of (shots scene_reconstruction) ''C'' = Some shot_C"
    by (simp_all add: scene_reconstruction_def)
  have sb: "score_loop scene_reconstruction (get_origin (shot_pose shot_A))
      (get_origin (shot_pose shot_B)) (scene_tracks 22) 0 = 22"
    by (simp add: score_loop_count scene_counts)
  have sc: "score_loop scene_reconstruction (get_origin (shot_pose shot_A))
      (get_origin (shot_pose shot_C)) (scene_tracks 21) 0 = 21"
    by (simp add: score_loop_count scene_counts)
  show ?thesis
    by (simp add: ranked_candidates_def scene_row b c sb sc sort_by_score_def)
qed

lemma scene_shots:
  "map_of (shots scene_reconstruction) ''B'' = Some shot_B"
  "map_of (shots scene_reconstruction) ''C'' = Some shot_C"
  "map_of (shots scene_reconstruction) ''Z'' = None"
  by (simp_all add: scene_reconstruction_def)

lemma scene_shot_ids:
  "\<forall>k s. map_of (shots scene_reconstruction) k = Some s \<longrightarrow> shot_id s = k"
  by (auto simp: scene_reconstruction_def shot_A_def shot_B_def shot_C_def split: if_splits)

text \<open>
  Claim C2. For every shot and every integer \<open>N\<close> the result is the queried shot followed
  by the shots of a list \<open>ns\<close> of scored candidates: the first element is the shot
  itself (also when \<open>ns\<close> is empty), the scores of \<open>ns\<close> are in descending order, and
  each score is the number of qualifying tracks of an entry of the target's row for that
  shot. For every budget, that is \<open>N \<ge> 0\<close>, the length is at most \<open>N + 1\<close>.
\<close>

theorem find_neighboring_images_shape:
  "\<exists>ns. find_neighboring_images sh ct rc N = sh # map fst ns
     \<and> (0 \<le> N \<longrightarrow> int (length (find_neighboring_images sh ct rc N)) \<le> N + 1)
     \<and> sorted_wrt (\<lambda>a b. snd a \<ge> snd b) ns
     \<and> (\<forall>(other, score) \<in> set ns.
          \<exists>oid tracks. (oid, tracks) \<in> set (row_of ct sh) \<and> map_of (shots rc) oid = Some other \<and>
            score = int (length (filter (qualifying rc sh other) tracks)))"
proof -
  let ?ns = "slice_upto (ranked_candidates sh ct rc) N"
  have eq: "find_neighboring_images sh ct rc N = sh # map fst ?ns"
    by (simp add: find_neighboring_images_def)
  have len: "0 \<le> N \<longrightarrow> int (length (find_neighboring_images sh ct rc N)) \<le> N + 1"
    using slice_upto_length [of N "ranked_candidates sh ct rc"] by (simp add: eq)
  have srt: "sorted_wrt (\<lambda>a b. snd a \<ge> snd b) ?ns"
    by (rule slice_upto_sorted [OF ranked_sorted])
  have mem: "\<forall>(other, score) \<in> set ?ns.
          \<exists>oid tracks. (oid, tracks) \<in> set (row_of ct sh) \<and> map_of (shots rc) oid = Some other \<and>
            score = int (length (filter (qualifying rc sh other) tracks))"
  proof (clarify)
    fix other score
    assume "(other, score) \<in> set ?ns"
    then have "(other, score) \<in> set (ranked_candidates sh ct rc)"
      using slice_upto_set by fastforce
    then show "\<exists>oid tracks. (oid, tracks) \<in> set (row_of ct sh) \<and> map_of (shots rc) oid = Some other \<and>
            score = int (length (filter (qualifying rc sh other) tracks))"
      unfolding ranked_mem by blast
  qed
  from eq len srt mem show ?thesis by blast
qed

theorem find_neighboring_images_shape_witness:
  "\<exists>ns :: (shot \<times> int) list.
     find_neighboring_images shot_A scene_table scene_reconstruction 1 = shot_A # map fst ns
     \<and> int (length (find_neighboring_images shot_A scene_table scene_reconstruction 1)) \<le> 2
     \<and> sorted_wrt (\<lambda>a b. snd a \<ge> snd b) ns"
  using find_neighboring_images_shape [of shot_A scene_table scene_reconstruction 1]
  by auto

text \<open>
  A negative \<open>N\<close> is not a budget: Python's slice then counts from the end, and the
  result for \<open>N = -1\<close> drops the last ranked candidate only.
\<close>

lemma find_neighboring_images_negative:
  "find_neighboring_images shot_A scene_table scene_reconstruction (- 1) = [shot_A, shot_B]"
  by (simp add: find_neighboring_images_def scene_ranked slice_upto_def)

text \<open>
  Claim C1, as amended. Take an entry \<open>(other_id, tracks)\<close> of the target's row of the
  common-track table whose shot \<open>other\<close> is in the reconstruction, the row having
  distinct keys and the reconstruction storing every shot under its own id. The score of
  the candidate is the number of its tracks that qualify (reconstructed point, angle
  strictly between \<open>pi / 60\<close> and \<open>pi / 6\<close>), and the candidate is kept among the ranked
  candidates if and only if that number is greater than 20. The ranked candidates are in
  descending order of score, and for a budget \<open>N \<ge> 0\<close> the result after the queried
  shot is exactly the first \<open>N\<close> of them. So a kept candidate (such as one with exactly
  21 qualifying tracks) appears in the result if and only if it is among the first \<open>N\<close>
  ranked candidates, and a candidate with at most 20 qualifying tracks (such as one with
  exactly 20) appears in no result, whatever \<open>N\<close>. In the counterexample below a
  candidate with 21 qualifying tracks ranks second and the budget is 1.
\<close>

theorem find_neighboring_images_threshold:
  assumes row: "(other_id, tracks) \<in> set (row_of ct sh)"
    and inrc: "map_of (shots rc) other_id = Some other"
    and keys: "distinct (map fst (row_of ct sh))"
    and ids: "\<forall>k s. map_of (shots rc) k = Some s \<longrightarrow> shot_id s = k"
  shows "((other, int (length (filter (qualifying rc sh other) tracks)))
            \<in> set (ranked_candidates sh ct rc)
          \<longleftrightarrow> 20 < length (filter (qualifying rc sh other) tracks))
     \<and> sorted_wrt (\<lambda>a b. snd a \<ge> snd b) (ranked_candidates sh ct rc)
     \<and> (0 \<le> N \<longrightarrow>
          tl (find_neighboring_images sh ct rc N) =
            map fst (take (nat N) (ranked_candidates sh ct rc)))
     \<and> (0 \<le> N \<longrightarrow>
          (other \<in> set (tl (find_neighboring_images sh ct rc N)) \<longleftrightarrow>
           (other, int (length (filter (qualifying rc sh other) tracks)))
             \<in> set (take (nat N) (ranked_candidates sh ct rc))))
     \<and> (length (filter (qualifying rc sh other) tracks) \<le> 20
          \<longrightarrow> other \<notin> set (tl (find_neighboring_images sh ct rc N)))"
proof -
  let ?q = "length (filter (qualifying rc sh other) tracks)"
  let ?ranked = "ranked_candidates sh ct rc"
  have kept: "20 < ?q \<Longrightarrow> (other, int ?q) \<in> set ?ranked"
    unfolding ranked_mem using row inrc by auto
  have only: "score = int ?q \<and> 20 < ?q" if "(other, score) \<in> set ?ranked" for score
  proof -
    from that obtain oid' tracks' where
      e: "(oid', tracks') \<in> set (row_of ct sh)" "map_of (shots rc) oid' = Some other"
         "score = int (length (filter (qualifying rc sh other) tracks'))" "score > 20"
      unfolding ranked_mem by blast
    from ids e(2) inrc have "oid' = other_id" by metis
    with keys row e(1) have "tracks' = tracks" by (metis eq_key_imp_eq_value)
    with e(3,4) show ?thesis by simp
  qed
  have a: "(other, int ?q) \<in> set ?ranked \<longleftrightarrow> 20 < ?q"
    using kept only by blast
  have tail: "tl (find_neighboring_images sh ct rc N) = map fst (take (nat N) ?ranked)"
    if "0 \<le> N"
    using that by (simp add: find_neighboring_images_def slice_upto_def)
  have b: "other \<in> set (tl (find_neighboring_images sh ct rc N)) \<longleftrightarrow>
      (other, int ?q) \<in> set (take (nat N) ?ranked)" if n: "0 \<le> N"
  proof
    assume "other \<in> set (tl (find_neighboring_images sh ct rc N))"
    then obtain score where s: "(other, score) \<in> set (take (nat N) ?ranked)"
      by (auto simp: tail [OF n])
    then have "(other, score) \<in> set ?ranked" by (rule in_set_takeD)
    from only [OF this] s show "(other, int ?q) \<in> set (take (nat N) ?ranked)" by simp
  next
    assume "(other, int ?q) \<in> set (take (nat N) ?ranked)"
    then show "other \<in> set (tl (find_neighboring_images sh ct rc N))"
      by (force simp: tail [OF n])
  qed
  have c: "other \<notin> set (tl (find_neighboring_images sh ct rc N))" if "?q \<le> 20"
  proof
    assume "other \<in> set (tl (find_neighboring_images sh ct rc N))"
    then obtain score where "(other, score) \<in> set (slice_upto ?ranked N)"
      by (auto simp: find_neighboring_images_def)
    then have "(other, score) \<in> set ?ranked"
      using slice_upto_set by fastforce
    from only [OF this] that show False by simp
  qed
  from a ranked_sorted [of sh ct rc] tail b c show ?thesis by blast
qed

theorem find_neighboring_images_threshold_witness:
  "(''B'', scene_tracks 22) \<in> set (row_of scene_table shot_A) \<and>
   (''C'', scene_tracks 21) \<in> set (row_of scene_table shot_A) \<and>
   map_of (shots scene_reconstruction) ''B'' = Some shot_B \<and>
   map_of (shots scene_reconstruction) ''C'' = Some shot_C \<and>
   distinct (map fst (row_of scene_table shot_A)) \<and>
   length (filter (qualifying scene_reconstruction shot_A shot_B) (scene_tracks 22)) = 22 \<and>
   length (filter (qualifying scene_reconstruction shot_A shot_C) (scene_tracks 21)) = 21 \<and>
   tl (find_neighboring_images shot_A scene_table scene_reconstruction 1) =
     map fst (take (nat 1) (ranked_candidates shot_A scene_table scene_reconstruction)) \<and>
   shot_B \<in> set (tl (find_neighboring_images shot_A scene_table scene_reconstruction 1)) \<and>
   shot_C \<notin> set (tl (find_neighboring_images shot_A scene_table scene_reconstruction 1)) \<and>
   shot_C \<in> set (tl (find_neighboring_images shot_A scene_table scene_reconstruction 2))"
proof -
  have rowB: "(''B'', scene_tracks 22) \<in> set (row_of scene_table shot_A)"
    and rowC: "(''C'', scene_tracks 21) \<in> set (row_of scene_table shot_A)"
    and keys: "distinct (map fst (row_of scene_table shot_A))"
    by (simp_all add: scene_row)
  have ne: "shot_C \<noteq> shot_B" by (simp add: shot_B_def shot_C_def)
  note tB = find_neighboring_images_threshold [OF rowB scene_shots(1) keys scene_shot_ids, of 1]
  note tC1 = find_neighboring_images_threshold [OF rowC scene_shots(2) keys scene_shot_ids, of 1]
  note tC2 = find_neighboring_images_threshold [OF rowC scene_shots(2) keys scene_shot_ids, of 2]
  from tB have tail: "tl (find_neighboring_images shot_A scene_table scene_reconstruction 1) =
     map fst (take (nat 1) (ranked_candidates shot_A scene_table scene_reconstruction))"
    by simp
  from tB have b: "shot_B \<in> set (tl (find_neighboring_images shot_A scene_table scene_reconstruction 1))"
    by (simp add: scene_counts scene_ranked)
  from tC1 ne have c1: "shot_C \<notin> set (tl (find_neighboring_images shot_A scene_table scene_reconstruction 1))"
    by (simp add: scene_counts scene_ranked)
  from tC2 have c2: "shot_C \<in> set (tl (find_neighboring_images shot_A scene_table scene_reconstruction 2))"
    by (simp add: scene_counts scene_ranked)
  from rowB rowC keys tail b c1 c2 show ?thesis
    by (simp add: scene_shots scene_counts)
qed

theorem find_neighboring_images_threshold_counterexample:
  "(''C'', scene_tracks 21) \<in> set (row_of scene_table shot_A) \<and>
   map_of (shots scene_reconstruction) ''C'' = Some shot_C \<and>
   length (filter (qualifying scene_reconstruction shot_A shot_C) (scene_tracks 21)) = 21 \<and>
   find_neighboring_images shot_A scene_table scene_reconstruction 1 = [shot_A, shot_B] \<and>
   shot_C \<notin> set (find_neighboring_images shot_A scene_table scene_reconstruction 1)"
proof -
  have r: "find_neighboring_images shot_A scene_table scene_reconstruction 1 = [shot_A, shot_B]"
    by (simp add: find_neighboring_images_def scene_ranked slice_upto_def)
  have "shot_C \<noteq> shot_A" "shot_C \<noteq> shot_B"
    by (simp_all add: shot_A_def shot_B_def shot_C_def)
  moreover have "map_of (shots scene_reconstruction) ''C'' = Some shot_C"
    by (simp add: scene_reconstruction_def)
  ultimately show ?thesis
    by (simp add: r scene_row scene_counts)
qed


text \<open>
  Claim C10. Candidates whose id is no key of the reconstruction's shots are skipped:
  the result is the same as for a table whose row for the target has those entries
  removed, and every neighbour returned is the reconstruction's shot of some key of the
  row.
\<close>

theorem find_neighboring_images_skips_unknown:
  assumes "row_of ct' sh = filter (\<lambda>(oid, tracks). map_of (shots rc) oid \<noteq> None) (row_of ct sh)"
  shows "find_neighboring_images sh ct rc N = find_neighboring_images sh ct' rc N
     \<and> (\<forall>x \<in> set (tl (find_neighboring_images sh ct rc N)).
          \<exists>oid tracks. (oid, tracks) \<in> set (row_of ct sh) \<and> map_of (shots rc) oid = Some x)"
proof -
  have "ranked_candidates sh ct' rc = ranked_candidates sh ct rc"
    by (simp only: ranked_candidates_def assms candidates_loop_filter)
  then have eq: "find_neighboring_images sh ct rc N = find_neighboring_images sh ct' rc N"
    by (simp add: find_neighboring_images_def)
  have mem: "\<forall>x \<in> set (tl (find_neighboring_images sh ct rc N)).
          \<exists>oid tracks. (oid, tracks) \<in> set (row_of ct sh) \<and> map_of (shots rc) oid = Some x"
  proof
    fix x
    assume "x \<in> set (tl (find_neighboring_images sh ct rc N))"
    then obtain score where "(x, score) \<in> set (slice_upto (ranked_candidates sh ct rc) N)"
      by (auto simp: find_neighboring_images_def)
    then have "(x, score) \<in> set (ranked_candidates sh ct rc)"
      using slice_upto_set by fastforce
    then show "\<exists>oid tracks. (oid, tracks) \<in> set (row_of ct sh) \<and> map_of (shots rc) oid = Some x"
      unfolding ranked_mem by blast
  qed
  from eq mem show ?thesis by blast
qed


theorem find_neighboring_images_skips_unknown_witness:
  "row_of scene_table shot_A =
     filter (\<lambda>(oid, tracks). map_of (shots scene_reconstruction) oid \<noteq> None)
       (row_of [(''A'', [(''Z'', scene_tracks 22), (''B'', scene_tracks 22), (''C'', scene_tracks 21)])]
          shot_A) \<and>
   find_neighboring_images shot_A
     [(''A'', [(''Z'', scene_tracks 22), (''B'', scene_tracks 22), (''C'', scene_tracks 21)])]
     scene_reconstruction 1 = [shot_A, shot_B]"
proof -
  let ?ct = "[(''A'', [(''Z'', scene_tracks 22), (''B'', scene_tracks 22), (''C'', scene_tracks 21)])] :: table"
  have h: "row_of scene_table shot_A =
     filter (\<lambda>(oid, tracks). map_of (shots scene_reconstruction) oid \<noteq> None) (row_of ?ct shot_A)"
  proof -
    have "row_of ?ct shot_A = [(''Z'', scene_tracks 22), (''B'', scene_tracks 22), (''C'', scene_tracks 21)]"
      by (simp add: row_of_def shot_A_def)
    then show ?thesis by (simp add: scene_row scene_shots)
  qed
  have r: "find_neighboring_images shot_A scene_table scene_reconstruction 1 = [shot_A, shot_B]"
    by (simp add: find_neighboring_images_def scene_ranked slice_upto_def)
  from find_neighboring_images_skips_unknown [OF h, of 1]
  have "find_neighboring_images shot_A ?ct scene_reconstruction 1 =
        find_neighboring_images shot_A scene_table scene_reconstruction 1"
    by blast
  with h r show ?thesis by simp
qed


subsection \<open>Depth range\<close>

lemma depths_loop_eq:
  "depths_loop rc sh tracks depths = depths @ visible_depths rc sh tracks"
  by (induction tracks arbitrary: depths) (auto simp: visible_depths_def split: option.splits)

lemma visible_depths_nonempty:
  "\<exists>t \<in> set tracks. points rc t \<noteq> None \<Longrightarrow> visible_depths rc sh tracks \<noteq> []"
  by (auto simp: visible_depths_def filter_empty_conv)

text \<open>
  Claim C3. For a shot of the track graph that observes at least one track with a
  reconstructed point, \<open>compute_depth_range\<close> returns, whatever numpy does on an empty
  sequence: as minimum 0.9 times the 10th percentile of the depths of those points (the
  third coordinate of the pose-transformed point), unless the configured
  \<open>depthmap_min_depth\<close> is non-zero, which then is the minimum; and as maximum 1.1 times
  the 90th percentile, unless the configured \<open>depthmap_max_depth\<close> is non-zero, which
  then is the maximum. Each bound is decided on its own.
\<close>

theorem compute_depth_range_percentiles:
  assumes "map_of tm (shot_id sh) = Some tracks"
    and "\<exists>t \<in> set tracks. points rc t \<noteq> None"
  shows "compute_depth_range empty_percentile tm rc sh cfg =
     Inr (if depthmap_min_depth cfg \<noteq> 0 then depthmap_min_depth cfg
          else 0.9 * linear_percentile (visible_depths rc sh tracks) 10,
          if depthmap_max_depth cfg \<noteq> 0 then depthmap_max_depth cfg
          else 1.1 * linear_percentile (visible_depths rc sh tracks) 90)"
  using assms(1) visible_depths_nonempty [OF assms(2), of sh]
  by (simp add: compute_depth_range_def get_shot_observations_def depths_loop_eq percentile_def
      Let_def)

lemma depth_scene_depths:
  "visible_depths depth_reconstruction shot_D [''p3'', ''p1'', ''u'', ''p5'', ''p2'', ''p4''] = [3, 1, 5, 2, 4]"
  by (simp add: visible_depths_def depth_reconstruction_def shot_D_def camera_at_def
      transform_def dot3_def third_def)

lemma depth_scene_percentiles:
  "linear_percentile [3, 1, 5, 2, 4] 10 = 7 / 5"
  "linear_percentile [3, 1, 5, 2, 4] 90 = 23 / 5"
  by (simp_all add: linear_percentile_def Let_def)

theorem compute_depth_range_percentiles_witness:
  "map_of depth_tracks (shot_id shot_D) = Some [''p3'', ''p1'', ''u'', ''p5'', ''p2'', ''p4''] \<and>
   points depth_reconstruction ''p3'' = Some (0, 1, 3) \<and>
   compute_depth_range (Inl ValueError) depth_tracks depth_reconstruction shot_D scene_config =
     Inr (63 / 50, 50)"
proof -
  have obs: "map_of depth_tracks (shot_id shot_D) = Some [''p3'', ''p1'', ''u'', ''p5'', ''p2'', ''p4'']"
    by (simp add: depth_tracks_def shot_D_def)
  have p3: "points depth_reconstruction ''p3'' = Some (0, 1, 3)"
    by (simp add: depth_reconstruction_def)
  then have some: "\<exists>t \<in> set [''p3'', ''p1'', ''u'', ''p5'', ''p2'', ''p4'']. points depth_reconstruction t \<noteq> None"
    by simp
  from compute_depth_range_percentiles [OF obs some, of "Inl ValueError" scene_config]
  have "compute_depth_range (Inl ValueError) depth_tracks depth_reconstruction shot_D scene_config =
     Inr (63 / 50, 50)"
    by (simp add: depth_scene_depths depth_scene_percentiles scene_config_def)
  with obs p3 show ?thesis by simp
qed

text \<open>
  When no observed track has a reconstructed point the function has no guard of its own:
  \<open>np.percentile\<close> is called on the empty list and the function does what numpy does
  there. If numpy raises, so does the function; if numpy returns a value, that value is
  scaled and returned like any other, or replaced by the configured bound.
\<close>

lemma compute_depth_range_no_points:
  assumes "map_of tm (shot_id sh) = Some tracks"
    and "\<forall>t \<in> set tracks. points rc t = None"
  shows "compute_depth_range (Inl e) tm rc sh cfg = Inl e"
    and "compute_depth_range (Inr v) tm rc sh cfg =
       Inr (if depthmap_min_depth cfg \<noteq> 0 then depthmap_min_depth cfg else v * 0.9,
            if depthmap_max_depth cfg \<noteq> 0 then depthmap_max_depth cfg else v * 1.1)"
proof -
  have "visible_depths rc sh tracks = []"
    using assms(2) by (auto simp: visible_depths_def filter_empty_conv)
  then show "compute_depth_range (Inl e) tm rc sh cfg = Inl e"
    and "compute_depth_range (Inr v) tm rc sh cfg =
       Inr (if depthmap_min_depth cfg \<noteq> 0 then depthmap_min_depth cfg else v * 0.9,
            if depthmap_max_depth cfg \<noteq> 0 then depthmap_max_depth cfg else v * 1.1)"
    using assms(1)
    by (simp_all add: compute_depth_range_def get_shot_observations_def depths_loop_eq
        percentile_def Let_def)
qed


subsection \<open>Stage runners\<close>

text \<open>
  Claim C8. Each of the three stage runners checks for its artifact first: when the raw,
  clean or pruned depthmap of the shot exists, the runner returns without an exception
  and the state it leaves differs from the one it found only by one log line. So no call
  to an object of \<open>pydense\<close> is made and the dataset, with the artifact in it, is
  unchanged.
\<close>

theorem stage_runners_idempotent:
  "(raw_depthmap_exists (data w) (shot_id sh) \<longrightarrow>
      compute_depthmap ext neighbors min_depth max_depth sh w =
        (None, w\<lparr>logged := logged w @ [(INFO, ''Using precomputed raw depthmap '' @ shot_id sh)]\<rparr>)
      \<and> calls (snd (compute_depthmap ext neighbors min_depth max_depth sh w)) = calls w
      \<and> data (snd (compute_depthmap ext neighbors min_depth max_depth sh w)) = data w)
   \<and> (clean_depthmap_exists (data w) (shot_id sh) \<longrightarrow>
      clean_depthmap ext neighbors sh w =
        (None, w\<lparr>logged := logged w @ [(INFO, ''Using precomputed clean depthmap '' @ shot_id sh)]\<rparr>)
      \<and> calls (snd (clean_depthmap ext neighbors sh w)) = calls w
      \<and> data (snd (clean_depthmap ext neighbors sh w)) = data w)
   \<and> (pruned_depthmap_exists (data w) (shot_id sh) \<longrightarrow>
      prune_depthmap ext neighbors sh w =
        (None, w\<lparr>logged := logged w @ [(INFO, ''Using precomputed pruned depthmap '' @ shot_id sh)]\<rparr>)
      \<and> calls (snd (prune_depthmap ext neighbors sh w)) = calls w
      \<and> data (snd (prune_depthmap ext neighbors sh w)) = data w)"
  by (simp add: compute_depthmap_def clean_depthmap_def prune_depthmap_def logger_def)

lemma save_debug_ply_frame:
  assumes "save_debug_ply ext sh depth suffix w = (r, w')"
  shows "raw_depthmaps (data w') = raw_depthmaps (data w)"
    and "clean_depthmaps (data w') = clean_depthmaps (data w)"
    and "pruned_depthmaps (data w') = pruned_depthmaps (data w)"
    and "calls w' = calls w"
  using assms
  by (auto simp: save_debug_ply_def write_depthmap_file_def Let_def split: if_splits sum.splits)


lemma add_views_to_depth_cleaner_fst:
  "fst (add_views_to_depth_cleaner d ns dc cs) = fst (add_views_to_depth_cleaner d ns dc cs')"
  by (induction ns arbitrary: dc cs cs') (auto simp: Let_def split: option.splits)

lemma data_logger [simp]: "data (logger lvl msg w) = data w"
  by (simp add: logger_def)

lemma calls_logger [simp]: "calls (logger lvl msg w) = calls w"
  by (simp add: logger_def)

lemma clean_depthmap_cases:
  assumes "\<not> clean_depthmap_exists (data w) (shot_id sh)"
  obtains
    (kernel_raised) e w' where "clean ext (cleaner_for (data w) neighbors) = Inl e"
      "clean_depthmap ext neighbors sh w = (Some e, w')" "data w' = data w"
  | (no_raw) depth w' where "clean ext (cleaner_for (data w) neighbors) = Inr depth"
      "raw_depthmaps (data w) (shot_id sh) = None"
      "clean_depthmap ext neighbors sh w = (Some IOError, w')" "data w' = data w"
  | (saved) depth raw r w' where "clean ext (cleaner_for (data w) neighbors) = Inr depth"
      "raw_depthmaps (data w) (shot_id sh) = Some raw"
      "clean_depthmap ext neighbors sh w = (r, w')"
      "clean_depthmaps (data w') = (clean_depthmaps (data w))(shot_id sh \<mapsto>
         \<lparr>clean_depth = depth, clean_plane = raw_plane raw, clean_score = raw_score raw\<rparr>)"
      "raw_depthmaps (data w') = raw_depthmaps (data w)"
      "pruned_depthmaps (data w') = pruned_depthmaps (data w)"
proof -
  let ?w1 = "logger INFO (''Cleaning depthmap for image '' @ shot_id sh) w"
  let ?dc0 = "\<lparr>dc_same_depth_threshold = depthmap_same_depth_threshold (config (data w)),
                dc_min_consistent_views = depthmap_min_consistent_views (config (data w)),
                dc_views = []\<rparr>"
  let ?cs0 = "calls w @ [''DepthmapCleaner'', ''DepthmapCleaner.set_same_depth_threshold'',
                    ''DepthmapCleaner.set_min_consistent_views'']"
  obtain dc cs where av: "add_views_to_depth_cleaner (data w) neighbors ?dc0 ?cs0 = (dc, cs)"
    by (cases "add_views_to_depth_cleaner (data w) neighbors ?dc0 ?cs0")
  have dc: "dc = cleaner_for (data w) neighbors"
    using add_views_to_depth_cleaner_fst [of "data w" neighbors ?dc0 ?cs0 "[]"] av
    by (simp add: cleaner_for_def)
  let ?w2 = "?w1\<lparr>calls := cs @ [''DepthmapCleaner.clean'']\<rparr>"
  have d2: "data ?w2 = data w" by simp
  show ?thesis
  proof (cases "clean ext dc")
    case (Inl e)
    then have "clean_depthmap ext neighbors sh w = (Some e, ?w2)"
      using assms av by (simp add: clean_depthmap_def)
    with Inl dc d2 show ?thesis using kernel_raised by blast
  next
    case (Inr depth)
    show ?thesis
    proof (cases "raw_depthmaps (data w) (shot_id sh)")
      case None
      then have "clean_depthmap ext neighbors sh w = (Some IOError, ?w2)"
        using assms av Inr by (simp add: clean_depthmap_def load_raw_depthmap_def)
      with Inr None dc d2 show ?thesis using no_raw by blast
    next
      case (Some raw)
      let ?w3 = "?w2\<lparr>data := save_clean_depthmap (data ?w2) (shot_id sh) depth
                                (raw_plane raw) (raw_score raw)\<rparr>"
      obtain r w' where res: "save_debug_ply ext sh depth ''clean.npz.ply'' ?w3 = (r, w')"
        by (cases "save_debug_ply ext sh depth ''clean.npz.ply'' ?w3")
      have run: "clean_depthmap ext neighbors sh w = (r, w')"
        using assms av Inr Some res by (simp add: clean_depthmap_def load_raw_depthmap_def)
      note fr = save_debug_ply_frame [OF res]
      have c: "clean_depthmaps (data w') = (clean_depthmaps (data w))(shot_id sh \<mapsto>
         \<lparr>clean_depth = depth, clean_plane = raw_plane raw, clean_score = raw_score raw\<rparr>)"
        using fr(2) by (simp add: save_clean_depthmap_def)
      have rw: "raw_depthmaps (data w') = raw_depthmaps (data w)"
        using fr(1) by (simp add: save_clean_depthmap_def)
      have pr: "pruned_depthmaps (data w') = pruned_depthmaps (data w)"
        using fr(3) by (simp add: save_clean_depthmap_def)
      from Inr dc Some run c rw pr show ?thesis using saved by blast
    qed
  qed
qed

text \<open>
  Claim C9. When the clean stage runs for a shot without a clean depthmap and leaves one,
  the shot has a raw depthmap, the plane and the score of the clean depthmap are the plane
  and the score of that raw depthmap, the depth is what the cleaner returned, and the raw
  depthmaps are as before.
\<close>

theorem clean_depthmap_carries_plane_and_score:
  assumes "\<not> clean_depthmap_exists (data w) (shot_id sh)"
    and "clean_depthmaps (data (snd (clean_depthmap ext neighbors sh w))) (shot_id sh) = Some c"
  shows "\<exists>raw. raw_depthmaps (data w) (shot_id sh) = Some raw
     \<and> clean_plane c = raw_plane raw
     \<and> clean_score c = raw_score raw
     \<and> clean ext (cleaner_for (data w) neighbors) = Inr (clean_depth c)
     \<and> raw_depthmaps (data (snd (clean_depthmap ext neighbors sh w))) = raw_depthmaps (data w)"
proof (rule clean_depthmap_cases [OF assms(1), of ext neighbors], goal_cases)
  case (1 e w')
  with assms show ?thesis by (simp add: clean_depthmap_exists_def)
next
  case (2 depth w')
  with assms show ?thesis by (simp add: clean_depthmap_exists_def)
next
  case saved: (3 depth raw r w')
  with assms(2) have "c = \<lparr>clean_depth = depth, clean_plane = raw_plane raw, clean_score = raw_score raw\<rparr>"
    by simp
  with saved show ?thesis by simp
qed

lemma clean_depthmap_saves:
  assumes "\<not> clean_depthmap_exists (data w) (shot_id sh)"
    and "raw_depthmaps (data w) (shot_id sh) = Some raw"
    and "clean ext (cleaner_for (data w) neighbors) = Inr depth"
  shows "clean_depthmaps (data (snd (clean_depthmap ext neighbors sh w))) (shot_id sh) =
     Some \<lparr>clean_depth = depth, clean_plane = raw_plane raw, clean_score = raw_score raw\<rparr>"
proof (rule clean_depthmap_cases [OF assms(1), of ext neighbors], goal_cases)
  case (1 e w')
  with assms show ?thesis by simp
next
  case (2 depth w')
  with assms show ?thesis by simp
next
  case (3 depth' raw' r w')
  with assms show ?thesis by simp
qed




















lemma scene_raw_state:
  "\<not> clean_depthmap_exists (data scene_world_raw) (shot_id shot_A)"
  "raw_depthmaps (data scene_world_raw) (shot_id shot_A) = Some scene_raw"
  by (simp_all add: clean_depthmap_exists_def scene_world_raw_def scene_dataset_def shot_A_def)

lemma scene_clean_run:
  "clean_depthmaps (data (snd (clean_depthmap scene_externals [shot_A, shot_B] shot_A scene_world_raw)))
     (shot_id shot_A) = Some scene_clean"
proof -
  have k: "clean scene_externals (cleaner_for (data scene_world_raw) [shot_A, shot_B]) =
      Inr [[Finite 0, Finite 2, Finite 0], [Finite 0, Finite 0, Finite 0]]"
    by (simp add: scene_externals_def)
  show ?thesis
    by (simp add: clean_depthmap_saves [OF scene_raw_state k] scene_clean_def scene_raw_def)
qed

theorem clean_depthmap_carries_plane_and_score_witness:
  "\<not> clean_depthmap_exists (data scene_world_raw) (shot_id shot_A) \<and>
   clean_depthmaps (data (snd (clean_depthmap scene_externals [shot_A, shot_B] shot_A scene_world_raw)))
     (shot_id shot_A) = Some scene_clean \<and>
   raw_depthmaps (data scene_world_raw) (shot_id shot_A) = Some scene_raw \<and>
   clean_plane scene_clean = raw_plane scene_raw \<and>
   clean_score scene_clean = raw_score scene_raw \<and>
   clean scene_externals (cleaner_for (data scene_world_raw) [shot_A, shot_B]) =
     Inr (clean_depth scene_clean)"
  using scene_raw_state scene_clean_run
    clean_depthmap_carries_plane_and_score [OF scene_raw_state(1) scene_clean_run]
  by auto

theorem stage_runners_idempotent_witness:
  "raw_depthmap_exists (data scene_world_done) (shot_id shot_A) \<and>
   clean_depthmap_exists (data scene_world_done) (shot_id shot_A) \<and>
   pruned_depthmap_exists (data scene_world_done) (shot_id shot_A) \<and>
   compute_depthmap scene_externals [shot_A, shot_B] 1 10 shot_A scene_world_done =
     (None, scene_world_done\<lparr>logged := [(INFO, ''Using precomputed raw depthmap A'')]\<rparr>) \<and>
   calls (snd (compute_depthmap scene_externals [shot_A, shot_B] 1 10 shot_A scene_world_done)) = [] \<and>
   clean_depthmap scene_externals [shot_A, shot_B] shot_A scene_world_done =
     (None, scene_world_done\<lparr>logged := [(INFO, ''Using precomputed clean depthmap A'')]\<rparr>) \<and>
   calls (snd (clean_depthmap scene_externals [shot_A, shot_B] shot_A scene_world_done)) = [] \<and>
   prune_depthmap scene_externals [shot_A, shot_B] shot_A scene_world_done =
     (None, scene_world_done\<lparr>logged := [(INFO, ''Using precomputed pruned depthmap A'')]\<rparr>) \<and>
   calls (snd (prune_depthmap scene_externals [shot_A, shot_B] shot_A scene_world_done)) = []"
proof -
  have e: "raw_depthmap_exists (data scene_world_done) (shot_id shot_A)"
    "clean_depthmap_exists (data scene_world_done) (shot_id shot_A)"
    "pruned_depthmap_exists (data scene_world_done) (shot_id shot_A)"
    by (simp_all add: raw_depthmap_exists_def clean_depthmap_exists_def
        pruned_depthmap_exists_def scene_world_done_def scene_dataset_def shot_A_def)
  have l: "logged scene_world_done = []" "calls scene_world_done = []" "shot_id shot_A = ''A''"
    by (simp_all add: scene_world_done_def shot_A_def)
  from stage_runners_idempotent
    [of scene_world_done shot_A scene_externals "[shot_A, shot_B]" 1 10]
  show ?thesis using e l by simp
qed

end
